theory Spec2Isabelle
  imports Main "HOL-Library.Word"
begin

unbundle bit_operations_syntax

section \<open>The riscv64 front end of VEX: \<^verbatim>\<open>VEX/priv/guest_riscv64_toIR.c\<close>\<close>

text \<open>
  The C types of the source: \<^verbatim>\<open>UChar\<close> is an 8-bit, \<^verbatim>\<open>UInt\<close> a 32-bit and
  \<^verbatim>\<open>ULong\<close> a 64-bit unsigned integer; \<^verbatim>\<open>Addr\<close> is a 64-bit address.
  Arithmetic on them wraps around, as arithmetic on words does.
\<close>

type_synonym UChar = "8 word"
type_synonym UInt = "32 word"
type_synonym ULong = "64 word"
type_synonym Addr = "64 word"

text \<open>
  \<^verbatim>\<open>vassert\<close> aborts the process when its condition is false. A read of the
  instruction bytes is a read of host memory through a pointer; the bytes that the
  caller made addressable are the domain of a partial map, and a read outside of it
  is the error \<open>BadRead\<close> with the index that was read.
\<close>

datatype vex_error = VAssertFailed | BadRead nat

subsection \<open>Helper bits and pieces for deconstructing the instruction stream\<close>

type_synonym byte_window = "nat \<Rightarrow> UChar option"

definition read_byte :: "byte_window \<Rightarrow> nat \<Rightarrow> vex_error + UChar" where
  "read_byte p i = (case p i of None \<Rightarrow> Inl (BadRead i) | Some b \<Rightarrow> Inr b)"

text \<open>
  \<^verbatim>\<open>getInsn\<close>: the test on \<^verbatim>\<open>p[0]\<close> comes first; a full-width instruction then
  reads \<^verbatim>\<open>p[3]\<close> and \<^verbatim>\<open>p[2]\<close>; both forms end with \<^verbatim>\<open>p[1]\<close> and \<^verbatim>\<open>p[0]\<close>.
\<close>

definition getInsn :: "byte_window \<Rightarrow> vex_error + UInt" where
  "getInsn p =
     (case read_byte p 0 of Inl e \<Rightarrow> Inl e | Inr t0 \<Rightarrow>
      let is_compressed = (t0 AND 0x3 \<noteq> 0x3);
          w = (0 :: UInt)
      in case (if \<not> is_compressed
               then (case read_byte p 3 of Inl e \<Rightarrow> Inl e | Inr b3 \<Rightarrow>
                     let w = push_bit 8 w OR ucast b3
                     in case read_byte p 2 of Inl e \<Rightarrow> Inl e | Inr b2 \<Rightarrow>
                        Inr (push_bit 8 w OR ucast b2))
               else Inr w) of
           Inl e \<Rightarrow> Inl e
         | Inr w \<Rightarrow>
             (case read_byte p 1 of Inl e \<Rightarrow> Inl e | Inr b1 \<Rightarrow>
              let w = push_bit 8 w OR ucast b1
              in case read_byte p 0 of Inl e \<Rightarrow> Inl e | Inr b0 \<Rightarrow>
                 Inr (push_bit 8 w OR ucast b0)))"

text \<open>
  \<^verbatim>\<open>sx_to_64\<close>: the left shift is on the unsigned value, the right shift on the
  value read as \<^verbatim>\<open>Long\<close>, which is an arithmetic shift.
\<close>

definition sx_to_64 :: "ULong \<Rightarrow> UInt \<Rightarrow> vex_error + ULong" where
  "sx_to_64 x n =
     (if \<not> (n > 1 \<and> n < 64) then Inl VAssertFailed
      else let x = push_bit (64 - unat n) x;
               r = signed_drop_bit (64 - unat n) x
           in Inr r)"

definition BITS2 :: "UInt \<Rightarrow> UInt \<Rightarrow> UInt" where
  "BITS2 b1 b0 = (push_bit 1 b1 OR b0)"

definition BITS3 :: "UInt \<Rightarrow> UInt \<Rightarrow> UInt \<Rightarrow> UInt" where
  "BITS3 b2 b1 b0 = (push_bit 2 b2 OR push_bit 1 b1 OR b0)"

definition X00 :: UInt where "X00 = BITS2 0 0"
definition X01 :: UInt where "X01 = BITS2 0 1"
definition X10 :: UInt where "X10 = BITS2 1 0"
definition X11 :: UInt where "X11 = BITS2 1 1"

text \<open>
  \<^verbatim>\<open>SLICE_UInt(_uint, _bMax, _bMin)\<close>: the width \<^verbatim>\<open>_bMax - _bMin + 1\<close> is
  computed in \<^verbatim>\<open>int\<close>, the mask in 64 bits (\<^verbatim>\<open>1ULL\<close>) and then cut to
  \<^verbatim>\<open>UInt\<close>. The macro is applied to constant bit positions with
  \<open>bMin \<le> bMax < 32\<close>; C leaves a shift by a negative amount or by the width of
  the type or more undefined.
\<close>

definition SLICE_UInt :: "UInt \<Rightarrow> nat \<Rightarrow> nat \<Rightarrow> UInt" where
  "SLICE_UInt u bMax bMin =
     (drop_bit bMin u AND ucast (push_bit (nat (int bMax - int bMin + 1)) (1 :: ULong) - 1))"

subsection \<open>Helpers for constructing IR\<close>

text \<open>
  The layout of \<^verbatim>\<open>VexGuestRISCV64State\<close> is declared in
  \<^verbatim>\<open>libvex_guest_riscv64.h\<close>, outside of this file, so the byte offsets
  \<^verbatim>\<open>offsetof(VexGuestRISCV64State, guest_xN)\<close> stay symbolic: one name for every
  field whose offset the source takes, different fields having different offsets.
\<close>

datatype guest_offset =
    OFFB_X0 | OFFB_X1 | OFFB_X2 | OFFB_X3 | OFFB_X4 | OFFB_X5 | OFFB_X6 | OFFB_X7
  | OFFB_X8 | OFFB_X9 | OFFB_X10 | OFFB_X11 | OFFB_X12 | OFFB_X13 | OFFB_X14 | OFFB_X15
  | OFFB_X16 | OFFB_X17 | OFFB_X18 | OFFB_X19 | OFFB_X20 | OFFB_X21 | OFFB_X22 | OFFB_X23
  | OFFB_X24 | OFFB_X25 | OFFB_X26 | OFFB_X27 | OFFB_X28 | OFFB_X29 | OFFB_X30 | OFFB_X31
  | OFFB_PC | OFFB_EMNOTE | OFFB_CMSTART | OFFB_CMLEN | OFFB_NRADDR | OFFB_IP_AT_SYSCALL

text \<open>
  Modelled from the spec: the IR types of \<^verbatim>\<open>libvex_ir.h\<close> (an external type, the
  decoder only appends to it). Of the IR the decoder builds constants of 64 bits, reads
  of the guest state and writes of the guest state; the block holds the types of its
  temporaries and an ordered, append-only list of statements.
\<close>

datatype IRType = Ity_INVALID | Ity_I1 | Ity_I8 | Ity_I16 | Ity_I32 | Ity_I64 | Ity_I128

datatype IRConst = IRConst_U64 ULong

datatype IRExpr = IRExpr_Const IRConst | IRExpr_Get guest_offset IRType

datatype IRStmt = IRStmt_Put guest_offset IRExpr

record IRSB =
  tyenv :: "IRType list"
  stmts :: "IRStmt list"

text \<open>Modelled from the spec: \<^verbatim>\<open>addStmtToIRSB\<close> appends a statement to the block.\<close>

definition addStmtToIRSB :: "IRSB \<Rightarrow> IRStmt \<Rightarrow> IRSB" where
  "addStmtToIRSB irsb st = irsb\<lparr>stmts := stmts irsb @ [st]\<rparr>"

text \<open>Modelled from the spec: \<^verbatim>\<open>typeOfIRExpr\<close> gives the static type of an expression.\<close>

fun typeOfIRExpr :: "IRType list \<Rightarrow> IRExpr \<Rightarrow> IRType" where
  "typeOfIRExpr env (IRExpr_Const (IRConst_U64 i)) = Ity_I64"
| "typeOfIRExpr env (IRExpr_Get off ty) = ty"

definition stmt :: "IRSB \<Rightarrow> IRStmt \<Rightarrow> IRSB" where
  "stmt irsb st = addStmtToIRSB irsb st"

definition mkU64 :: "ULong \<Rightarrow> IRExpr" where
  "mkU64 i = IRExpr_Const (IRConst_U64 i)"

subsection \<open>Debugging output\<close>

text \<open>
  \<^verbatim>\<open>vex_printf\<close> is the trace sink of the front end. What it has received is a
  list of calls, each a format string with its arguments. \<^verbatim>\<open>DIP\<close> calls it only
  under \<^verbatim>\<open>vex_traceflags & VEX_TRACE_FE\<close>; the flag word and the mask are declared
  in \<^verbatim>\<open>main_globals.h\<close>, and the functions below take the truth value of that test.
\<close>

datatype fmt_arg = Arg_str string | Arg_UInt UInt | Arg_ULong ULong

type_synonym vex_output = "(string \<times> fmt_arg list) list"

definition vex_printf :: "string \<Rightarrow> fmt_arg list \<Rightarrow> vex_output \<Rightarrow> vex_output" where
  "vex_printf format args out = out @ [(format, args)]"

definition DIP :: "bool \<Rightarrow> string \<Rightarrow> fmt_arg list \<Rightarrow> vex_output \<Rightarrow> vex_output" where
  "DIP trace_fe format args out = (if trace_fe then vex_printf format args out else out)"

subsection \<open>Integer registers\<close>

definition offsetIReg64 :: "UInt \<Rightarrow> vex_error + guest_offset" where
  "offsetIReg64 iregNo =
     (if iregNo = 0 then Inr OFFB_X0
      else if iregNo = 1 then Inr OFFB_X1
      else if iregNo = 2 then Inr OFFB_X2
      else if iregNo = 3 then Inr OFFB_X3
      else if iregNo = 4 then Inr OFFB_X4
      else if iregNo = 5 then Inr OFFB_X5
      else if iregNo = 6 then Inr OFFB_X6
      else if iregNo = 7 then Inr OFFB_X7
      else if iregNo = 8 then Inr OFFB_X8
      else if iregNo = 9 then Inr OFFB_X9
      else if iregNo = 10 then Inr OFFB_X10
      else if iregNo = 11 then Inr OFFB_X11
      else if iregNo = 12 then Inr OFFB_X12
      else if iregNo = 13 then Inr OFFB_X13
      else if iregNo = 14 then Inr OFFB_X14
      else if iregNo = 15 then Inr OFFB_X15
      else if iregNo = 16 then Inr OFFB_X16
      else if iregNo = 17 then Inr OFFB_X17
      else if iregNo = 18 then Inr OFFB_X18
      else if iregNo = 19 then Inr OFFB_X19
      else if iregNo = 20 then Inr OFFB_X20
      else if iregNo = 21 then Inr OFFB_X21
      else if iregNo = 22 then Inr OFFB_X22
      else if iregNo = 23 then Inr OFFB_X23
      else if iregNo = 24 then Inr OFFB_X24
      else if iregNo = 25 then Inr OFFB_X25
      else if iregNo = 26 then Inr OFFB_X26
      else if iregNo = 27 then Inr OFFB_X27
      else if iregNo = 28 then Inr OFFB_X28
      else if iregNo = 29 then Inr OFFB_X29
      else if iregNo = 30 then Inr OFFB_X30
      else if iregNo = 31 then Inr OFFB_X31
      else Inl VAssertFailed)"

definition names :: "string list" where
  "names =
     [''zero'', ''ra'', ''sp'', ''gp'', ''tp'', ''t0'', ''t1'', ''t2'', ''s0'', ''s1'', ''a0'',
      ''a1'', ''a2'', ''a3'', ''a4'', ''a5'', ''a6'', ''a7'', ''s2'', ''s3'', ''s4'', ''s5'',
      ''s6'', ''s7'', ''s8'', ''s9'', ''s10'', ''s11'', ''t3'', ''t4'', ''t5'', ''t6'']"

definition nameIReg64 :: "UInt \<Rightarrow> vex_error + string" where
  "nameIReg64 iregNo =
     (if \<not> iregNo < 32 then Inl VAssertFailed else Inr (names ! unat iregNo))"

definition getIReg64 :: "UInt \<Rightarrow> vex_error + IRExpr" where
  "getIReg64 iregNo =
     (if \<not> iregNo < 32 then Inl VAssertFailed
      else case offsetIReg64 iregNo of
             Inl e \<Rightarrow> Inl e
           | Inr off \<Rightarrow> Inr (IRExpr_Get off Ity_I64))"

definition putIReg64 :: "IRSB \<Rightarrow> UInt \<Rightarrow> IRExpr \<Rightarrow> vex_error + IRSB" where
  "putIReg64 irsb iregNo e =
     (if \<not> typeOfIRExpr (tyenv irsb) e = Ity_I64 then Inl VAssertFailed
      else case offsetIReg64 iregNo of
             Inl e' \<Rightarrow> Inl e'
           | Inr off \<Rightarrow> Inr (stmt irsb (IRStmt_Put off e)))"

subsection \<open>Disassemble a single instruction\<close>

text \<open>
  Modelled from the spec: the result record \<^verbatim>\<open>DisResult\<close> and its enumerations
  are declared in \<^verbatim>\<open>guest_generic_bb_to_IR.h\<close> and \<^verbatim>\<open>libvex_ir.h\<close>, outside of
  this file. Each enumeration has the values the source names and one more
  constructor for any other bit pattern; \<^verbatim>\<open>vex_bzero\<close> leaves the pattern 0 in
  every field.
\<close>

datatype DisWhatNext = Dis_StopHere | Dis_Continue | Dis_WhatNext_raw nat

datatype DisHint = Dis_HintNone | Dis_Hint_raw nat

datatype IRJumpKind = Ijk_INVALID | Ijk_NoDecode | Ijk_raw nat

record DisResult =
  len :: UInt
  whatNext :: DisWhatNext
  hint :: DisHint
  jk_StopHere :: IRJumpKind

definition DisResult_bzero :: DisResult where
  "DisResult_bzero =
     \<lparr>len = 0, whatNext = Dis_WhatNext_raw 0, hint = Dis_Hint_raw 0, jk_StopHere = Ijk_raw 0\<rparr>"

text \<open>
  A decoder changes the result record, the block and the trace output, and returns
  a flag; \<^verbatim>\<open>vassert\<close> can end it before that.
\<close>

type_synonym dis_state = "bool \<times> DisResult \<times> IRSB \<times> vex_output"

definition dis_RISCV64_compressed_00 ::
  "DisResult \<Rightarrow> IRSB \<Rightarrow> UInt \<Rightarrow> bool \<Rightarrow> vex_output \<Rightarrow> vex_error + dis_state" where
  "dis_RISCV64_compressed_00 dres irsb insn sigill_diag out =
     (let out = (if sigill_diag
                 then vex_printf ''RISCV64 front end: compressed_00\<newline>'' [] out else out)
      in Inr (False, dres, irsb, out))"

definition dis_RISCV64_compressed_01 ::
  "bool \<Rightarrow> DisResult \<Rightarrow> IRSB \<Rightarrow> UInt \<Rightarrow> bool \<Rightarrow> vex_output \<Rightarrow> vex_error + dis_state" where
  "dis_RISCV64_compressed_01 trace_fe dres irsb insn sigill_diag out =
     (let INSN = SLICE_UInt insn;
          fall_through =
            (let out = (if sigill_diag
                        then vex_printf ''RISCV64 front end: compressed_01\<newline>'' [] out else out)
             in Inr (False, dres, irsb, out))
      in if INSN 15 13 = BITS3 0 1 1
         then let rd = INSN 11 7;
                  nzimm = push_bit 17 (INSN 12 12) OR push_bit 12 (INSN 6 2)
              in if rd = 0 \<or> rd = 2 \<or> nzimm = 0
                 then fall_through
                 else (case sx_to_64 (ucast nzimm) 18 of Inl e \<Rightarrow> Inl e | Inr v \<Rightarrow>
                       case putIReg64 irsb rd (mkU64 v) of Inl e \<Rightarrow> Inl e | Inr irsb \<Rightarrow>
                       if trace_fe
                       then (case nameIReg64 rd of Inl e \<Rightarrow> Inl e | Inr nm \<Rightarrow>
                             Inr (True, dres, irsb,
                                  vex_printf ''lui %s, 0x%x\<newline>''
                                    [Arg_str nm, Arg_UInt (drop_bit 12 nzimm)] out))
                       else Inr (True, dres, irsb, out))
         else fall_through)"

definition dis_RISCV64_compressed_10 ::
  "DisResult \<Rightarrow> IRSB \<Rightarrow> UInt \<Rightarrow> bool \<Rightarrow> vex_output \<Rightarrow> vex_error + dis_state" where
  "dis_RISCV64_compressed_10 dres irsb insn sigill_diag out =
     (let out = (if sigill_diag
                 then vex_printf ''RISCV64 front end: compressed_10\<newline>'' [] out else out)
      in Inr (False, dres, irsb, out))"

text \<open>
  The \<^verbatim>\<open>switch\<close> of \<^verbatim>\<open>disInstr_RISCV64_WRK\<close> on \<^verbatim>\<open>INSN(1, 0)\<close>, which calls
  the decoder of the quadrant. \<^verbatim>\<open>ok\<close> is false before it; the quadrant
  \<^verbatim>\<open>X11\<close> has no decoder yet and leaves it so.
\<close>

definition disInstr_RISCV64_WRK_switch ::
  "bool \<Rightarrow> DisResult \<Rightarrow> IRSB \<Rightarrow> UInt \<Rightarrow> bool \<Rightarrow> vex_output \<Rightarrow> vex_error + dis_state" where
  "disInstr_RISCV64_WRK_switch trace_fe dres irsb insn sigill_diag out =
     (let INSN = SLICE_UInt insn;
          ok = False
      in if INSN 1 0 = X00
         then dis_RISCV64_compressed_00 dres irsb insn sigill_diag out
         else if INSN 1 0 = X01
         then dis_RISCV64_compressed_01 trace_fe dres irsb insn sigill_diag out
         else if INSN 1 0 = X10
         then dis_RISCV64_compressed_10 dres irsb insn sigill_diag out
         else if INSN 1 0 = X11
         then Inr (ok, dres, irsb, out)
         else Inl VAssertFailed)"

text \<open>
  The end of \<^verbatim>\<open>disInstr_RISCV64_WRK\<close>, after the \<^verbatim>\<open>switch\<close>: if the
  next-level down decoders failed, make sure the result record did not get changed;
  then return \<^verbatim>\<open>ok\<close>. Its parameters are what the decoder of the quadrant left:
  the flag, the result record, the block and the trace output.
\<close>

definition disInstr_RISCV64_WRK_finish ::
  "bool \<Rightarrow> DisResult \<Rightarrow> IRSB \<Rightarrow> vex_output \<Rightarrow> vex_error + dis_state" where
  "disInstr_RISCV64_WRK_finish ok dres irsb out =
     (if \<not> ok
      then (if \<not> whatNext dres = Dis_Continue then Inl VAssertFailed
            else if \<not> len dres = 4 then Inl VAssertFailed
            else if \<not> jk_StopHere dres = Ijk_INVALID then Inl VAssertFailed
            else Inr (ok, dres, irsb, out))
      else Inr (ok, dres, irsb, out))"

text \<open>
  \<^verbatim>\<open>disInstr_RISCV64_WRK\<close>; its parameters \<^verbatim>\<open>archinfo\<close> and \<^verbatim>\<open>abiinfo\<close> are not
  used.
\<close>

definition disInstr_RISCV64_WRK ::
  "bool \<Rightarrow> DisResult \<Rightarrow> IRSB \<Rightarrow> byte_window \<Rightarrow> Addr \<Rightarrow> bool \<Rightarrow> vex_output
     \<Rightarrow> vex_error + dis_state" where
  "disInstr_RISCV64_WRK trace_fe dres irsb guest_instr guest_pc_curr_instr sigill_diag out =
     (let dres = dres\<lparr>whatNext := Dis_Continue\<rparr>;
          dres = dres\<lparr>len := 4\<rparr>;
          dres = dres\<lparr>jk_StopHere := Ijk_INVALID\<rparr>;
          dres = dres\<lparr>hint := Dis_HintNone\<rparr>
      in case getInsn guest_instr of Inl e \<Rightarrow> Inl e | Inr insn \<Rightarrow>
         let out = DIP trace_fe (CHR 0x09 # ''(riscv64) 0x%llx:  '') [Arg_ULong guest_pc_curr_instr] out
         in if \<not> (0 = guest_pc_curr_instr AND 3) then Inl VAssertFailed
            else case disInstr_RISCV64_WRK_switch trace_fe dres irsb insn sigill_diag out of
                   Inl e \<Rightarrow> Inl e
                 | Inr (ok, dres, irsb, out) \<Rightarrow> disInstr_RISCV64_WRK_finish ok dres irsb out)"

subsection \<open>Top-level function\<close>

text \<open>
  The loop of the failure path that writes the instruction word in binary into
  \<^verbatim>\<open>buf\<close>, most significant bit first, a space after every 8 bits and a quote after
  every other 4 bits. \<^verbatim>\<open>buf\<close> has 64 bytes, zeroed before the loop.
\<close>

function dump_loop :: "nat \<Rightarrow> nat \<Rightarrow> UInt \<Rightarrow> char list \<Rightarrow> char list" where
  "dump_loop i j insn buf =
     (if i < 32
      then let (j, buf) =
                 (if i > 0
                  then (if i AND 7 = 0 then (j + 1, buf[j := CHR '' ''])
                        else if i AND 3 = 0 then (j + 1, buf[j := CHR 0x27])
                        else (j, buf))
                  else (j, buf));
               buf = buf[j := (if insn AND push_bit (31 - i) 1 \<noteq> 0 then CHR ''1'' else CHR ''0'')];
               j = j + 1
           in dump_loop (i + 1) j insn buf
      else buf)"
  by pat_completeness auto

termination dump_loop
  by (relation "measure (\<lambda>(i, j, insn, buf). 32 - i)") auto

text \<open>The C string held by a buffer: its bytes up to the first zero byte.\<close>

definition c_string :: "char list \<Rightarrow> string" where
  "c_string buf = takeWhile (\<lambda>c. c \<noteq> CHR 0x00) buf"

text \<open>
  Modelled from the spec: the architectures of \<^verbatim>\<open>libvex.h\<close>, of which the source
  names \<^verbatim>\<open>VexArchRISCV64\<close>.
\<close>

datatype VexArch = VexArch_INVALID | VexArchX86 | VexArchAMD64 | VexArchARM | VexArchARM64
  | VexArchPPC32 | VexArchPPC64 | VexArchS390X | VexArchMIPS32 | VexArchMIPS64 | VexArchRISCV64

text \<open>
  The two branches after the call of the worker in \<^verbatim>\<open>disInstr_RISCV64\<close>: all
  decode successes and all decode failures end up here. \<open>guest_instr\<close> is
  \<^verbatim>\<open>&guest_code[delta]\<close>.
\<close>

definition disInstr_RISCV64_finish ::
  "bool \<Rightarrow> bool \<Rightarrow> DisResult \<Rightarrow> IRSB \<Rightarrow> byte_window \<Rightarrow> Addr \<Rightarrow> bool \<Rightarrow> vex_output
     \<Rightarrow> vex_error + (DisResult \<times> IRSB \<times> vex_output)" where
  "disInstr_RISCV64_finish trace_fe ok dres irsb guest_instr guest_IP sigill_diag out =
     (if ok
      then (if \<not> (len dres = 4 \<or> len dres = 20) then Inl VAssertFailed
            else case (case whatNext dres of
                         Dis_Continue \<Rightarrow>
                           Inr (stmt irsb (IRStmt_Put OFFB_PC (mkU64 (guest_IP + ucast (len dres)))))
                       | Dis_StopHere \<Rightarrow> Inr irsb
                       | Dis_WhatNext_raw v \<Rightarrow> Inl VAssertFailed) of
                   Inl e \<Rightarrow> Inl e
                 | Inr irsb \<Rightarrow> Inr (dres, irsb, DIP trace_fe ''\<newline>'' [] out))
      else case (if sigill_diag
                 then (case getInsn guest_instr of Inl e \<Rightarrow> Inl e | Inr insn \<Rightarrow>
                       let buf = replicate 64 (CHR 0x00);
                           buf = dump_loop 0 0 insn buf;
                           out = vex_printf ''disInstr(riscv64): unhandled instruction 0x%08x\<newline>''
                                   [Arg_UInt insn] out;
                           out = vex_printf ''disInstr(riscv64): %s\<newline>''
                                   [Arg_str (c_string buf)] out
                       in Inr out)
                 else Inr out) of
             Inl e \<Rightarrow> Inl e
           | Inr out \<Rightarrow>
               let irsb = stmt irsb (IRStmt_Put OFFB_PC (mkU64 guest_IP));
                   dres = dres\<lparr>len := 0\<rparr>;
                   dres = dres\<lparr>whatNext := Dis_StopHere\<rparr>;
                   dres = dres\<lparr>jk_StopHere := Ijk_NoDecode\<rparr>
               in Inr (dres, irsb, out))"

text \<open>
  \<^verbatim>\<open>disInstr_RISCV64\<close>: the instruction is located in host memory at
  \<^verbatim>\<open>&guest_code[delta]\<close>, where \<^verbatim>\<open>delta\<close> is a signed offset. The parameters
  \<^verbatim>\<open>archinfo\<close>, \<^verbatim>\<open>abiinfo\<close> and \<^verbatim>\<open>host_endness\<close> are not used.
\<close>

definition window_at :: "(int \<Rightarrow> UChar option) \<Rightarrow> int \<Rightarrow> byte_window" where
  "window_at guest_code delta = (\<lambda>i. guest_code (delta + int i))"

definition disInstr_RISCV64 ::
  "bool \<Rightarrow> IRSB \<Rightarrow> (int \<Rightarrow> UChar option) \<Rightarrow> int \<Rightarrow> Addr \<Rightarrow> VexArch \<Rightarrow> bool \<Rightarrow> vex_output
     \<Rightarrow> vex_error + (DisResult \<times> IRSB \<times> vex_output)" where
  "disInstr_RISCV64 trace_fe irsb guest_code delta guest_IP guest_arch sigill_diag out =
     (let dres = DisResult_bzero
      in if \<not> guest_arch = VexArchRISCV64 then Inl VAssertFailed
         else case disInstr_RISCV64_WRK trace_fe dres irsb (window_at guest_code delta)
                     guest_IP sigill_diag out of
                Inl e \<Rightarrow> Inl e
              | Inr (ok, dres, irsb, out) \<Rightarrow>
                  disInstr_RISCV64_finish trace_fe ok dres irsb (window_at guest_code delta)
                    guest_IP sigill_diag out)"

text \<open>
  The reference formula of the specification for sign extension,
  \<^verbatim>\<open>((value << (64-width)) as signed) >> (64-width)\<close>, written with the signed
  integer value of the shifted word and a division that rounds down.
\<close>

definition signExtend_ref :: "ULong \<Rightarrow> nat \<Rightarrow> ULong" where
  "signExtend_ref v width =
     word_of_int (sint (push_bit (64 - width) v) div 2 ^ (64 - width))"

text \<open>
  What a caller can observe of a result apart from the trace output: the error, or
  the flag, the result record and the block.
\<close>

definition WRK_outcome :: "vex_error + dis_state \<Rightarrow> vex_error + (bool \<times> DisResult \<times> IRSB)" where
  "WRK_outcome r = (case r of Inl e \<Rightarrow> Inl e | Inr (ok, dres, irsb, out) \<Rightarrow> Inr (ok, dres, irsb))"

definition decode_outcome ::
  "vex_error + (DisResult \<times> IRSB \<times> vex_output) \<Rightarrow> vex_error + (DisResult \<times> IRSB)" where
  "decode_outcome r = (case r of Inl e \<Rightarrow> Inl e | Inr (dres, irsb, out) \<Rightarrow> Inr (dres, irsb))"

section \<open>Properties\<close>

subsection \<open>Bit fields and sign extension\<close>

lemma sx_to_64_value:
  "1 < n \<Longrightarrow> n < 64 \<Longrightarrow>
   sx_to_64 x n = Inr (signed_drop_bit (64 - unat n) (push_bit (64 - unat n) x))"
  by (simp add: sx_to_64_def Let_def)

lemma shift_pair_is_reference:
  "signed_drop_bit (64 - w) (push_bit (64 - w) (x :: ULong)) = signExtend_ref x w"
proof -
  define k where "k = 64 - w"
  have "signed_drop_bit k (push_bit k x) = word_of_int (sint (signed_drop_bit k (push_bit k x)))"
    by simp
  also have "\<dots> = word_of_int (drop_bit k (sint (push_bit k x)))"
    by (simp only: sint_signed_drop_bit_eq)
  finally show ?thesis
    by (simp add: signExtend_ref_def drop_bit_eq_div k_def)
qed

lemma shift_pair_bits:
  fixes x :: ULong
  assumes "0 < w" and "w < 64" and "i < 64"
  shows "bit (signed_drop_bit (64 - w) (push_bit (64 - w) x)) i
           = (if i < w then bit x i else bit x (w - 1))"
  using assms by (auto simp add: bit_signed_drop_bit_iff bit_push_bit_iff)

lemma shift_pair_low_bits:
  fixes x :: ULong
  assumes "0 < w" and "w < 64" and "unat x < 2 ^ w"
  shows "take_bit w (signed_drop_bit (64 - w) (push_bit (64 - w) x)) = x"
proof -
  have "unat (take_bit w x) = unat x"
    using assms(3) by (simp add: unsigned_take_bit_eq take_bit_nat_eq_self)
  then have low: "take_bit w x = x"
    by (simp only: word_unat_eq_iff)
  have "take_bit w (signed_drop_bit (64 - w) (push_bit (64 - w) x)) = take_bit w x"
    using assms(1,2) by (intro bit_word_eqI) (auto simp add: bit_simps)
  with low show ?thesis by simp
qed

lemma slice_mask:
  assumes "k \<le> 32"
  shows "(ucast (push_bit k (1 :: ULong) - 1) :: UInt) = mask k"
proof -
  have "push_bit k (1 :: ULong) - 1 = mask k"
    by (simp add: mask_eq_exp_minus_1)
  moreover have "(ucast (mask k :: ULong) :: UInt) = mask k"
    using assms by (intro bit_word_eqI) (auto simp add: bit_simps)
  ultimately show ?thesis by simp
qed

lemma SLICE_UInt_take_bit:
  assumes "bMin \<le> bMax" and "bMax < 32"
  shows "SLICE_UInt u bMax bMin = take_bit (bMax - bMin + 1) (drop_bit bMin u)"
proof -
  have "bMax - bMin + 1 \<le> 32"
    using assms by simp
  moreover have "nat (int bMax - int bMin + 1) = bMax - bMin + 1"
    using assms by simp
  ultimately show ?thesis
    unfolding SLICE_UInt_def by (simp only: slice_mask take_bit_eq_mask)
qed

lemma SLICE_UInt_less:
  assumes "bMin \<le> bMax" and "bMax < 32"
  shows "unat (SLICE_UInt u bMax bMin) < 2 ^ (bMax - bMin + 1)"
  unfolding SLICE_UInt_take_bit [OF assms]
  by (simp only: unsigned_take_bit_eq take_bit_nat_less_exp)

text \<open>
  Claim C6. For every width with \<open>1 < width < 64\<close> and every value below
  \<open>2 ^ width\<close>, \<^verbatim>\<open>sx_to_64\<close> returns, without failing its assertion, the value
  of the reference formula: the value shifted left by \<open>64 - width\<close>, read as a signed
  64-bit number and shifted right arithmetically by the same amount. The low
  \<open>width\<close> bits of the result are the value, and each of the bits from \<open>width\<close>
  to 63 is bit \<open>width - 1\<close> of the value.
\<close>

theorem sx_to_64_sign_extends:
  fixes v :: ULong and width :: UInt
  assumes "1 < width" and "width < 64" and "unat v < 2 ^ unat width"
  shows "\<exists>r. sx_to_64 v width = Inr r
           \<and> r = signExtend_ref v (unat width)
           \<and> take_bit (unat width) r = v
           \<and> (\<forall>i. unat width \<le> i \<and> i < 64 \<longrightarrow> bit r i = bit v (unat width - 1))"
proof -
  let ?w = "unat width"
  let ?r = "signed_drop_bit (64 - ?w) (push_bit (64 - ?w) v)"
  have pos: "0 < ?w"
    using assms(1) by (simp add: word_less_nat_alt)
  have small: "?w < 64"
    using assms(2) by (simp add: word_less_nat_alt)
  have "sx_to_64 v width = Inr ?r"
    using assms(1,2) by (rule sx_to_64_value)
  moreover have "?r = signExtend_ref v ?w"
    by (rule shift_pair_is_reference)
  moreover have "take_bit ?w ?r = v"
    using pos small assms(3) by (rule shift_pair_low_bits)
  moreover have "\<forall>i. ?w \<le> i \<and> i < 64 \<longrightarrow> bit ?r i = bit v (?w - 1)"
    using pos small by (simp add: shift_pair_bits)
  ultimately show ?thesis
    by blast
qed

theorem sx_to_64_sign_extends_witness:
  "(1 :: UInt) < 18 \<and> (18 :: UInt) < 64 \<and> unat (0x20000 :: ULong) < 2 ^ unat (18 :: UInt)
   \<and> sx_to_64 0x20000 18 = Inr 0xFFFFFFFFFFFE0000
   \<and> signExtend_ref 0x20000 18 = 0xFFFFFFFFFFFE0000
   \<and> bit (0xFFFFFFFFFFFE0000 :: ULong) 63 = bit (0x20000 :: ULong) 17"
proof -
  have h1: "(1 :: UInt) < 18" by simp
  have h2: "(18 :: UInt) < 64" by simp
  have h3: "unat (0x20000 :: ULong) < 2 ^ unat (18 :: UInt)" by simp
  from sx_to_64_sign_extends [OF h1 h2 h3] obtain r where
    r: "sx_to_64 0x20000 18 = Inr r" "r = signExtend_ref 0x20000 (unat (18 :: UInt))"
       "\<forall>i. unat (18 :: UInt) \<le> i \<and> i < 64 \<longrightarrow> bit r i = bit (0x20000 :: ULong) (unat (18 :: UInt) - 1)"
    by blast
  have val: "sx_to_64 0x20000 18 = Inr 0xFFFFFFFFFFFE0000"
    by (simp add: sx_to_64_def)
  with r(1) have "r = 0xFFFFFFFFFFFE0000" by simp
  with r(2,3) val h1 h2 h3 show ?thesis by simp
qed

text \<open>
  Claim C7. For every 32-bit word and all bit positions with
  \<open>lowBit \<le> highBit < 32\<close>, \<^verbatim>\<open>SLICE_UInt\<close> gives the word shifted right by
  \<open>lowBit\<close> and masked to \<open>highBit - lowBit + 1\<close> bits, a value strictly below
  \<open>2 ^ (highBit - lowBit + 1)\<close>.
\<close>

theorem SLICE_UInt_extracts_field:
  assumes "lowBit \<le> highBit" and "highBit < 32"
  shows "SLICE_UInt word highBit lowBit = drop_bit lowBit word AND mask (highBit - lowBit + 1)
         \<and> unat (SLICE_UInt word highBit lowBit) < 2 ^ (highBit - lowBit + 1)"
  using SLICE_UInt_take_bit [OF assms] SLICE_UInt_less [OF assms]
  by (simp add: take_bit_eq_mask)

theorem SLICE_UInt_extracts_field_witness:
  "(0 :: nat) \<le> 31 \<and> (31 :: nat) < 32
   \<and> SLICE_UInt 0xDEADBEEF 31 0 = 0xDEADBEEF
   \<and> unat (SLICE_UInt 0xDEADBEEF 31 0) < 2 ^ 32"
proof -
  have h1: "(0 :: nat) \<le> 31" by simp
  have h2: "(31 :: nat) < 32" by simp
  show ?thesis
    using h1 h2 SLICE_UInt_extracts_field [OF h1 h2, of "0xDEADBEEF"]
    by (simp add: mask_eq_exp_minus_1)
qed

subsection \<open>The instruction reader\<close>

lemma getInsn_compressed:
  assumes "p 0 = Some b0" and "b0 AND 3 \<noteq> 3" and "p 1 = Some b1"
  shows "getInsn p = Inr (push_bit 8 (ucast b1) OR ucast b0)"
  using assms by (simp add: getInsn_def read_byte_def Let_def)

lemma getInsn_full:
  assumes "p 0 = Some b0" and "b0 AND 3 = 3" and "p 1 = Some b1" and "p 2 = Some b2" and "p 3 = Some b3"
  shows "getInsn p = Inr (push_bit 8 (push_bit 8 (push_bit 8 (ucast b3) OR ucast b2) OR ucast b1) OR ucast b0)"
  using assms by (simp add: getInsn_def read_byte_def Let_def)

lemma bytes_of_halfword:
  fixes b0 b1 :: UChar
  defines "w \<equiv> (push_bit 8 (ucast b1) OR ucast b0 :: UInt)"
  shows "ucast w = b0" and "ucast (drop_bit 8 w) = b1" and "drop_bit 16 w = 0"
  unfolding w_def
  by (rule bit_word_eqI; auto simp add: bit_simps dest: bit_imp_le_length)+

lemma bytes_of_word:
  fixes b0 b1 b2 b3 :: UChar
  defines "w \<equiv> (push_bit 8 (push_bit 8 (push_bit 8 (ucast b3) OR ucast b2) OR ucast b1) OR ucast b0 :: UInt)"
  shows "ucast w = b0" and "ucast (drop_bit 8 w) = b1" and "ucast (drop_bit 16 w) = b2" and "ucast (drop_bit 24 w) = b3"
  unfolding w_def
  by (rule bit_word_eqI; auto simp add: bit_simps dest: bit_imp_le_length)+

lemma getInsn_cong:
  assumes "\<forall>i<4. p i = q i"
  shows "getInsn p = getInsn q"
proof -
  have r: "read_byte p 0 = read_byte q 0" "read_byte p 1 = read_byte q 1"
      "read_byte p 2 = read_byte q 2" "read_byte p 3 = read_byte q 3"
    using assms by (simp_all add: read_byte_def)
  show ?thesis
    unfolding getInsn_def r by (rule refl)
qed

lemma getInsn_error:
  assumes "getInsn p = Inl e"
  shows "\<exists>i<4. e = BadRead i \<and> p i = None"
  using assms
  by (auto simp add: getInsn_def read_byte_def Let_def split: option.splits if_splits)

subsection \<open>The decoders\<close>

lemma word_below_32_cases:
  fixes r :: UInt
  assumes "r < 32"
  shows "r \<in> {0, 1, 2, 3, 4, 5, 6, 7, 8, 9, 10, 11, 12, 13, 14, 15, 16, 17, 18, 19, 20,
              21, 22, 23, 24, 25, 26, 27, 28, 29, 30, 31}"
proof -
  have "unat r < 32"
    using assms by (simp add: word_less_nat_alt)
  then have "unat r \<in> {0, 1, 2, 3, 4, 5, 6, 7, 8, 9, 10, 11, 12, 13, 14, 15, 16, 17, 18, 19, 20,
              21, 22, 23, 24, 25, 26, 27, 28, 29, 30, 31}"
    by (simp only: insert_iff empty_iff) arith
  then have "of_nat (unat r) \<in> (of_nat ` {0, 1, 2, 3, 4, 5, 6, 7, 8, 9, 10, 11, 12, 13, 14, 15, 16,
              17, 18, 19, 20, 21, 22, 23, 24, 25, 26, 27, 28, 29, 30, 31} :: UInt set)"
    by (rule imageI)
  then show ?thesis
    by simp
qed

lemma offsetIReg64_defined:
  assumes "r < 32"
  shows "\<exists>off. offsetIReg64 r = Inr off"
  using word_below_32_cases [OF assms]
  by (auto simp add: offsetIReg64_def)

lemma rd_less: "SLICE_UInt insn 11 7 < 32"
proof -
  have "unat (SLICE_UInt insn 11 7) < 2 ^ (11 - 7 + 1)"
    by (rule SLICE_UInt_less) simp_all
  then show ?thesis by (simp add: word_less_nat_alt)
qed

lemma nameIReg64_defined: "r < 32 \<Longrightarrow> nameIReg64 r = Inr (names ! unat r)"
  by (simp add: nameIReg64_def)

lemma c01_reject:
  assumes "SLICE_UInt insn 15 13 \<noteq> 3 \<or> SLICE_UInt insn 11 7 = 0 \<or> SLICE_UInt insn 11 7 = 2
           \<or> push_bit 17 (SLICE_UInt insn 12 12) OR push_bit 12 (SLICE_UInt insn 6 2) = 0"
  shows "dis_RISCV64_compressed_01 t dres irsb insn sd out =
           Inr (False, dres, irsb,
                if sd then vex_printf ''RISCV64 front end: compressed_01\<newline>'' [] out else out)"
  using assms by (auto simp add: dis_RISCV64_compressed_01_def Let_def BITS3_def)

lemma c01_accept:
  assumes "SLICE_UInt insn 15 13 = 3" and "SLICE_UInt insn 11 7 \<noteq> 0" and "SLICE_UInt insn 11 7 \<noteq> 2"
    and "push_bit 17 (SLICE_UInt insn 12 12) OR push_bit 12 (SLICE_UInt insn 6 2) \<noteq> 0"
  shows "\<exists>off. offsetIReg64 (SLICE_UInt insn 11 7) = Inr off \<and>
           dis_RISCV64_compressed_01 t dres irsb insn sd out =
           Inr (True, dres,
                irsb\<lparr>stmts := stmts irsb @
                  [IRStmt_Put off (IRExpr_Const (IRConst_U64 (signExtend_ref
                     (ucast (push_bit 17 (SLICE_UInt insn 12 12) OR push_bit 12 (SLICE_UInt insn 6 2))) 18)))]\<rparr>,
                if t then vex_printf ''lui %s, 0x%x\<newline>''
                      [Arg_str (names ! unat (SLICE_UInt insn 11 7)),
                       Arg_UInt (drop_bit 12 (push_bit 17 (SLICE_UInt insn 12 12) OR push_bit 12 (SLICE_UInt insn 6 2)))] out
                else out)"
proof -
  obtain off where off: "offsetIReg64 (SLICE_UInt insn 11 7) = Inr off"
    using offsetIReg64_defined [OF rd_less] by blast
  have sx: "sx_to_64 x 18 = Inr (signExtend_ref x 18)" for x
    using sx_to_64_value [of 18 x] shift_pair_is_reference [of 18 x] by simp
  show ?thesis
    using assms off
    by (simp add: dis_RISCV64_compressed_01_def Let_def BITS3_def sx putIReg64_def mkU64_def
          stmt_def addStmtToIRSB_def nameIReg64_defined [OF rd_less])
qed


lemma quadrant_cases:
  "SLICE_UInt insn 1 0 = X00 \<or> SLICE_UInt insn 1 0 = X01 \<or> SLICE_UInt insn 1 0 = X10
   \<or> SLICE_UInt insn 1 0 = X11"
proof -
  have "unat (SLICE_UInt insn 1 0) < 2 ^ (1 - 0 + 1)"
    by (rule SLICE_UInt_less) simp_all
  then have "SLICE_UInt insn 1 0 < 32"
    by (simp add: word_less_nat_alt)
  from word_below_32_cases [OF this] \<open>unat (SLICE_UInt insn 1 0) < 2 ^ (1 - 0 + 1)\<close>
  show ?thesis
    by (auto simp add: X00_def X01_def X10_def X11_def BITS2_def)
qed

lemma DisResult_defaults:
  "dres\<lparr>whatNext := Dis_Continue, len := 4, jk_StopHere := Ijk_INVALID, hint := Dis_HintNone\<rparr>
     = \<lparr>len = 4, whatNext = Dis_Continue, hint = Dis_HintNone, jk_StopHere = Ijk_INVALID\<rparr>"
  by (cases dres) simp

lemma WRK_read_error:
  "getInsn p = Inl e \<Longrightarrow> disInstr_RISCV64_WRK t dres irsb p pc sd out = Inl e"
  by (simp add: disInstr_RISCV64_WRK_def)

lemma WRK_misaligned:
  "getInsn p = Inr insn \<Longrightarrow> pc AND 3 \<noteq> 0 \<Longrightarrow>
   disInstr_RISCV64_WRK t dres irsb p pc sd out = Inl VAssertFailed"
  by (auto simp add: disInstr_RISCV64_WRK_def Let_def)

lemma WRK_accept:
  assumes "getInsn p = Inr insn" and "pc AND 3 = 0"
    and "SLICE_UInt insn 1 0 = 1"
    and "SLICE_UInt insn 15 13 = 3" and "SLICE_UInt insn 11 7 \<noteq> 0" and "SLICE_UInt insn 11 7 \<noteq> 2"
    and "push_bit 17 (SLICE_UInt insn 12 12) OR push_bit 12 (SLICE_UInt insn 6 2) \<noteq> 0"
  shows "\<exists>off out'. offsetIReg64 (SLICE_UInt insn 11 7) = Inr off \<and>
           disInstr_RISCV64_WRK t dres irsb p pc sd out =
           Inr (True, \<lparr>len = 4, whatNext = Dis_Continue, hint = Dis_HintNone, jk_StopHere = Ijk_INVALID\<rparr>,
                irsb\<lparr>stmts := stmts irsb @
                  [IRStmt_Put off (IRExpr_Const (IRConst_U64 (signExtend_ref
                     (ucast (push_bit 17 (SLICE_UInt insn 12 12) OR push_bit 12 (SLICE_UInt insn 6 2))) 18)))]\<rparr>,
                out')"
proof -
  let ?d = "\<lparr>len = 4, whatNext = Dis_Continue, hint = Dis_HintNone, jk_StopHere = Ijk_INVALID\<rparr>"
  let ?o = "DIP t (CHR 0x09 # ''(riscv64) 0x%llx:  '') [Arg_ULong pc] out"
  from c01_accept [OF assms(4-7), of t ?d irsb sd ?o]
  obtain off where off: "offsetIReg64 (SLICE_UInt insn 11 7) = Inr off"
    and run: "\<exists>out'. dis_RISCV64_compressed_01 t ?d irsb insn sd ?o =
           Inr (True, ?d,
                irsb\<lparr>stmts := stmts irsb @
                  [IRStmt_Put off (IRExpr_Const (IRConst_U64 (signExtend_ref
                     (ucast (push_bit 17 (SLICE_UInt insn 12 12) OR push_bit 12 (SLICE_UInt insn 6 2))) 18)))]\<rparr>,
                out')"
    by blast
  from run obtain out' where run': "dis_RISCV64_compressed_01 t ?d irsb insn sd ?o =
           Inr (True, ?d,
                irsb\<lparr>stmts := stmts irsb @
                  [IRStmt_Put off (IRExpr_Const (IRConst_U64 (signExtend_ref
                     (ucast (push_bit 17 (SLICE_UInt insn 12 12) OR push_bit 12 (SLICE_UInt insn 6 2))) 18)))]\<rparr>,
                out')" by blast
  have "disInstr_RISCV64_WRK t dres irsb p pc sd out = Inr (True, ?d,
                irsb\<lparr>stmts := stmts irsb @
                  [IRStmt_Put off (IRExpr_Const (IRConst_U64 (signExtend_ref
                     (ucast (push_bit 17 (SLICE_UInt insn 12 12) OR push_bit 12 (SLICE_UInt insn 6 2))) 18)))]\<rparr>,
                out')"
    using assms(1-3) run'
    by (simp add: disInstr_RISCV64_WRK_def Let_def DisResult_defaults X00_def X01_def BITS2_def
          disInstr_RISCV64_WRK_switch_def disInstr_RISCV64_WRK_finish_def)
  with off show ?thesis by blast
qed

lemma WRK_reject:
  assumes "getInsn p = Inr insn" and "pc AND 3 = 0"
    and "SLICE_UInt insn 1 0 \<noteq> 1 \<or> SLICE_UInt insn 15 13 \<noteq> 3 \<or> SLICE_UInt insn 11 7 = 0
         \<or> SLICE_UInt insn 11 7 = 2
         \<or> push_bit 17 (SLICE_UInt insn 12 12) OR push_bit 12 (SLICE_UInt insn 6 2) = 0"
  shows "\<exists>out'. disInstr_RISCV64_WRK t dres irsb p pc sd out =
           Inr (False, \<lparr>len = 4, whatNext = Dis_Continue, hint = Dis_HintNone, jk_StopHere = Ijk_INVALID\<rparr>,
                irsb, out')"
proof (cases "SLICE_UInt insn 1 0 = 1")
  case True
  with assms(3) have "SLICE_UInt insn 15 13 \<noteq> 3 \<or> SLICE_UInt insn 11 7 = 0 \<or> SLICE_UInt insn 11 7 = 2
           \<or> push_bit 17 (SLICE_UInt insn 12 12) OR push_bit 12 (SLICE_UInt insn 6 2) = 0"
    by blast
  from c01_reject [OF this] assms(1,2) True show ?thesis
    by (simp add: disInstr_RISCV64_WRK_def Let_def DisResult_defaults X00_def X01_def BITS2_def
          disInstr_RISCV64_WRK_switch_def disInstr_RISCV64_WRK_finish_def)
next
  case False
  with quadrant_cases [of insn] assms(1,2) show ?thesis
    by (auto simp add: disInstr_RISCV64_WRK_def Let_def DisResult_defaults X00_def X01_def X10_def
          X11_def BITS2_def disInstr_RISCV64_WRK_switch_def disInstr_RISCV64_WRK_finish_def dis_RISCV64_compressed_00_def
          dis_RISCV64_compressed_10_def)
qed

lemma INSN_fields:
  "SLICE_UInt insn 1 0 = insn AND 3"
  "SLICE_UInt insn 15 13 = drop_bit 13 insn AND 7"
  "SLICE_UInt insn 11 7 = drop_bit 7 insn AND 31"
  "SLICE_UInt insn 12 12 = drop_bit 12 insn AND 1"
  "SLICE_UInt insn 6 2 = drop_bit 2 insn AND 31"
  by (simp_all add: SLICE_UInt_take_bit take_bit_eq_mask mask_eq_exp_minus_1)

lemma aligned_iff: "(pc :: Addr) AND 3 = 0 \<longleftrightarrow> unat pc mod 4 = 0"
proof -
  have "pc AND 3 = take_bit 2 pc"
    by (simp add: take_bit_eq_mask mask_eq_exp_minus_1)
  moreover have "take_bit 2 pc = 0 \<longleftrightarrow> unat (take_bit 2 pc) = 0"
    by (simp add: unat_eq_0)
  moreover have "unat (take_bit 2 pc) = unat pc mod 4"
    by (simp add: take_bit_eq_mod unat_mod)
  ultimately show ?thesis by simp
qed

lemma finish_success:
  assumes "len dres = 4 \<or> len dres = 20"
  shows "whatNext dres = Dis_Continue \<Longrightarrow>
         disInstr_RISCV64_finish t True dres irsb p ip sd out =
           Inr (dres,
                irsb\<lparr>stmts := stmts irsb @
                  [IRStmt_Put OFFB_PC (IRExpr_Const (IRConst_U64 (ip + ucast (len dres))))]\<rparr>,
                if t then vex_printf ''\<newline>'' [] out else out)"
    and "whatNext dres = Dis_StopHere \<Longrightarrow>
         disInstr_RISCV64_finish t True dres irsb p ip sd out =
           Inr (dres, irsb, if t then vex_printf ''\<newline>'' [] out else out)"
    and "whatNext dres = Dis_WhatNext_raw v \<Longrightarrow>
         disInstr_RISCV64_finish t True dres irsb p ip sd out = Inl VAssertFailed"
  using assms
  by (auto simp add: disInstr_RISCV64_finish_def stmt_def addStmtToIRSB_def mkU64_def DIP_def)

lemma finish_bad_length:
  assumes "len dres \<noteq> 4" and "len dres \<noteq> 20"
  shows "disInstr_RISCV64_finish t True dres irsb p ip sd out = Inl VAssertFailed"
  using assms by (simp add: disInstr_RISCV64_finish_def)

lemma finish_failure:
  assumes "getInsn p = Inr insn"
  shows "\<exists>out'. disInstr_RISCV64_finish t False dres irsb p ip sd out =
           Inr (dres\<lparr>len := 0, whatNext := Dis_StopHere, jk_StopHere := Ijk_NoDecode\<rparr>,
                irsb\<lparr>stmts := stmts irsb @ [IRStmt_Put OFFB_PC (IRExpr_Const (IRConst_U64 ip))]\<rparr>,
                out')"
  using assms
  by (simp add: disInstr_RISCV64_finish_def stmt_def addStmtToIRSB_def mkU64_def Let_def)

lemma driver_accept:
  assumes "getInsn (window_at gc delta) = Inr insn" and "ip AND 3 = 0"
    and "SLICE_UInt insn 1 0 = 1"
    and "SLICE_UInt insn 15 13 = 3" and "SLICE_UInt insn 11 7 \<noteq> 0" and "SLICE_UInt insn 11 7 \<noteq> 2"
    and "push_bit 17 (SLICE_UInt insn 12 12) OR push_bit 12 (SLICE_UInt insn 6 2) \<noteq> 0"
  shows "\<exists>off out'. offsetIReg64 (SLICE_UInt insn 11 7) = Inr off \<and>
           disInstr_RISCV64 t irsb gc delta ip VexArchRISCV64 sd out =
           Inr (\<lparr>len = 4, whatNext = Dis_Continue, hint = Dis_HintNone, jk_StopHere = Ijk_INVALID\<rparr>,
                irsb\<lparr>stmts := stmts irsb @
                  [IRStmt_Put off (IRExpr_Const (IRConst_U64 (signExtend_ref
                     (ucast (push_bit 17 (SLICE_UInt insn 12 12) OR push_bit 12 (SLICE_UInt insn 6 2))) 18))),
                   IRStmt_Put OFFB_PC (IRExpr_Const (IRConst_U64 (ip + 4)))]\<rparr>,
                out')"
proof -
  from WRK_accept [OF assms, of t DisResult_bzero irsb sd out]
  obtain off out' where off: "offsetIReg64 (SLICE_UInt insn 11 7) = Inr off"
    and w: "disInstr_RISCV64_WRK t DisResult_bzero irsb (window_at gc delta) ip sd out =
           Inr (True, \<lparr>len = 4, whatNext = Dis_Continue, hint = Dis_HintNone, jk_StopHere = Ijk_INVALID\<rparr>,
                irsb\<lparr>stmts := stmts irsb @
                  [IRStmt_Put off (IRExpr_Const (IRConst_U64 (signExtend_ref
                     (ucast (push_bit 17 (SLICE_UInt insn 12 12) OR push_bit 12 (SLICE_UInt insn 6 2))) 18)))]\<rparr>,
                out')"
    by blast
  show ?thesis
    using off by (simp add: disInstr_RISCV64_def w finish_success(1))
qed

lemma driver_reject:
  assumes "getInsn (window_at gc delta) = Inr insn" and "ip AND 3 = 0"
    and "SLICE_UInt insn 1 0 \<noteq> 1 \<or> SLICE_UInt insn 15 13 \<noteq> 3 \<or> SLICE_UInt insn 11 7 = 0
         \<or> SLICE_UInt insn 11 7 = 2
         \<or> push_bit 17 (SLICE_UInt insn 12 12) OR push_bit 12 (SLICE_UInt insn 6 2) = 0"
  shows "\<exists>out'. disInstr_RISCV64 t irsb gc delta ip VexArchRISCV64 sd out =
           Inr (\<lparr>len = 0, whatNext = Dis_StopHere, hint = Dis_HintNone, jk_StopHere = Ijk_NoDecode\<rparr>,
                irsb\<lparr>stmts := stmts irsb @ [IRStmt_Put OFFB_PC (IRExpr_Const (IRConst_U64 ip))]\<rparr>,
                out')"
proof -
  from WRK_reject [OF assms, of t DisResult_bzero irsb sd out]
  obtain out1 where w: "disInstr_RISCV64_WRK t DisResult_bzero irsb (window_at gc delta) ip sd out =
           Inr (False, \<lparr>len = 4, whatNext = Dis_Continue, hint = Dis_HintNone, jk_StopHere = Ijk_INVALID\<rparr>,
                irsb, out1)"
    by blast
  from finish_failure [OF assms(1),
      of t "\<lparr>len = 4, whatNext = Dis_Continue, hint = Dis_HintNone, jk_StopHere = Ijk_INVALID\<rparr>"
         irsb ip sd out1]
  show ?thesis
    by (simp add: disInstr_RISCV64_def w)
qed

lemma driver_read_error:
  "getInsn (window_at gc delta) = Inl e \<Longrightarrow>
   disInstr_RISCV64 t irsb gc delta ip VexArchRISCV64 sd out = Inl e"
  by (simp add: disInstr_RISCV64_def WRK_read_error)

lemma driver_misaligned:
  "getInsn (window_at gc delta) = Inr insn \<Longrightarrow> ip AND 3 \<noteq> 0 \<Longrightarrow>
   disInstr_RISCV64 t irsb gc delta ip VexArchRISCV64 sd out = Inl VAssertFailed"
  by (simp add: disInstr_RISCV64_def WRK_misaligned)

lemma driver_wrong_arch:
  "arch \<noteq> VexArchRISCV64 \<Longrightarrow> disInstr_RISCV64 t irsb gc delta ip arch sd out = Inl VAssertFailed"
  by (simp add: disInstr_RISCV64_def)

subsection \<open>Claims about the instruction reader\<close>

text \<open>
  Claim C8. \<^verbatim>\<open>getInsn\<close> decides the length from the low two bits of byte 0. If
  they are not 11, it reads bytes 0 and 1 only: it returns a word whose bytes 0 and 1
  are those and whose upper 16 bits are zero, also where bytes 2 and 3 are not
  addressable, and any window with the same bytes 0 and 1 gives the same result.
  Otherwise it returns the word whose four bytes are bytes 0 to 3 of the window,
  byte 0 the least significant. In all cases the result is the same for two windows
  that agree on the indices 0 to 3, and a read that fails is a read at one of these
  indices.
\<close>

theorem getInsn_reads_only_its_window:
  "(p 0 = Some b0 \<and> b0 AND 3 \<noteq> 3 \<and> p 1 = Some b1 \<longrightarrow>
      (\<exists>w. getInsn p = Inr w \<and> ucast w = b0 \<and> ucast (drop_bit 8 w) = b1 \<and> drop_bit 16 w = 0))
   \<and> (p 0 = Some b0 \<and> b0 AND 3 = 3 \<and> p 1 = Some b1 \<and> p 2 = Some b2 \<and> p 3 = Some b3 \<longrightarrow>
      (\<exists>w. getInsn p = Inr w \<and> ucast w = b0 \<and> ucast (drop_bit 8 w) = b1
           \<and> ucast (drop_bit 16 w) = b2 \<and> ucast (drop_bit 24 w) = b3))
   \<and> (p 0 = Some b0 \<and> b0 AND 3 \<noteq> 3 \<and> q 0 = p 0 \<and> q 1 = p 1 \<longrightarrow> getInsn q = getInsn p)
   \<and> ((\<forall>i<4. q i = p i) \<longrightarrow> getInsn q = getInsn p)
   \<and> (getInsn p = Inl e \<longrightarrow> (\<exists>i<4. e = BadRead i \<and> p i = None))"
proof (intro conjI impI)
  assume "p 0 = Some b0 \<and> b0 AND 3 \<noteq> 3 \<and> p 1 = Some b1"
  then show "\<exists>w. getInsn p = Inr w \<and> ucast w = b0 \<and> ucast (drop_bit 8 w) = b1 \<and> drop_bit 16 w = 0"
    using bytes_of_halfword [of b1 b0] by (simp add: getInsn_compressed)
next
  assume "p 0 = Some b0 \<and> b0 AND 3 = 3 \<and> p 1 = Some b1 \<and> p 2 = Some b2 \<and> p 3 = Some b3"
  then show "\<exists>w. getInsn p = Inr w \<and> ucast w = b0 \<and> ucast (drop_bit 8 w) = b1
           \<and> ucast (drop_bit 16 w) = b2 \<and> ucast (drop_bit 24 w) = b3"
    using bytes_of_word [of b3 b2 b1 b0] by (simp add: getInsn_full)
next
  assume a: "p 0 = Some b0 \<and> b0 AND 3 \<noteq> 3 \<and> q 0 = p 0 \<and> q 1 = p 1"
  then have r: "read_byte q 0 = Inr b0" "read_byte p 0 = Inr b0" "read_byte q 1 = read_byte p 1"
    by (simp_all add: read_byte_def)
  show "getInsn q = getInsn p"
    using a unfolding getInsn_def r by simp
next
  assume "\<forall>i<4. q i = p i"
  then show "getInsn q = getInsn p"
    by (rule getInsn_cong)
next
  assume "getInsn p = Inl e"
  then show "\<exists>i<4. e = BadRead i \<and> p i = None"
    by (rule getInsn_error)
qed

theorem getInsn_reads_only_its_window_witness:
  "([0 \<mapsto> 0x05, 1 \<mapsto> 0x65] :: byte_window) 0 = Some 0x05 \<and> (0x05 :: UChar) AND 3 \<noteq> 3
   \<and> ([0 \<mapsto> 0x05, 1 \<mapsto> 0x65] :: byte_window) 1 = Some 0x65
   \<and> ([0 \<mapsto> 0x05, 1 \<mapsto> 0x65] :: byte_window) 2 = None
   \<and> getInsn [0 \<mapsto> 0x05, 1 \<mapsto> 0x65] = Inr 0x6505
   \<and> drop_bit 16 (0x6505 :: UInt) = 0
   \<and> getInsn [0 \<mapsto> 0x05, 1 \<mapsto> 0x65, 2 \<mapsto> 0xFF, 3 \<mapsto> 0xFF, 4 \<mapsto> 0xFF] = Inr 0x6505
   \<and> (0xB7 :: UChar) AND 3 = 3
   \<and> getInsn [0 \<mapsto> 0xB7, 1 \<mapsto> 0x15, 2 \<mapsto> 0x00, 3 \<mapsto> 0x00] = Inr 0x000015B7
   \<and> getInsn [0 \<mapsto> 0xB7, 1 \<mapsto> 0x15, 2 \<mapsto> 0x00] = Inl (BadRead 3)
   \<and> ([0 \<mapsto> 0xB7, 1 \<mapsto> 0x15, 2 \<mapsto> 0x00] :: byte_window) 3 = None"
proof -
  let ?p = "[0 \<mapsto> 0x05, 1 \<mapsto> 0x65] :: byte_window"
  let ?q = "[0 \<mapsto> 0x05, 1 \<mapsto> 0x65, 2 \<mapsto> 0xFF, 3 \<mapsto> 0xFF, 4 \<mapsto> 0xFF] :: byte_window"
  let ?f = "[0 \<mapsto> 0xB7, 1 \<mapsto> 0x15, 2 \<mapsto> 0x00, 3 \<mapsto> 0x00] :: byte_window"
  let ?g = "[0 \<mapsto> 0xB7, 1 \<mapsto> 0x15, 2 \<mapsto> 0x00] :: byte_window"
  have c: "?p 0 = Some 0x05 \<and> (0x05 :: UChar) AND 3 \<noteq> 3 \<and> ?p 1 = Some 0x65"
    by simp
  have c': "?p 0 = Some 0x05 \<and> (0x05 :: UChar) AND 3 \<noteq> 3 \<and> ?q 0 = ?p 0 \<and> ?q 1 = ?p 1"
    by simp
  have f: "?f 0 = Some 0xB7 \<and> (0xB7 :: UChar) AND 3 = 3 \<and> ?f 1 = Some 0x15 \<and> ?f 2 = Some 0x00
           \<and> ?f 3 = Some 0x00"
    by simp
  have v: "getInsn ?p = Inr 0x6505" "getInsn ?f = Inr 0x15B7" "getInsn ?g = Inl (BadRead 3)"
    by (simp_all add: getInsn_def read_byte_def)
  note compressed = getInsn_reads_only_its_window [of ?p "0x05" "0x65" _ _ ?q]
  note full = getInsn_reads_only_its_window [of ?f "0xB7" "0x15" "0x00" "0x00"]
  note failing = getInsn_reads_only_its_window [of ?g _ _ _ _ _ "BadRead 3"]
  from compressed c obtain w where "getInsn ?p = Inr w" and "drop_bit 16 w = 0"
    by blast
  with v(1) have upper: "drop_bit 16 (0x6505 :: UInt) = 0"
    by simp
  from compressed c' have same: "getInsn ?q = getInsn ?p"
    by blast
  from full f obtain w' where "getInsn ?f = Inr w'" and "ucast (drop_bit 8 w') = (0x15 :: UChar)"
    by blast
  from failing v(3) obtain i where "i < 4" and "BadRead 3 = BadRead i" and "?g i = None"
    by blast
  then have "?g 3 = None"
    by simp
  with c f v upper same show ?thesis
    by simp
qed

subsection \<open>The outcome of a decode call\<close>

lemma WRK_returns_reads:
  assumes "disInstr_RISCV64_WRK t dres irsb p pc sd out = Inr r"
  shows "\<exists>insn. getInsn p = Inr insn"
proof (cases "getInsn p")
  case (Inl e)
  with WRK_read_error [OF Inl, of t dres irsb pc sd out] assms show ?thesis by simp
next
  case (Inr insn)
  then show ?thesis by blast
qed

lemma WRK_outcome_cases:
  "WRK_outcome (disInstr_RISCV64_WRK t dres irsb p pc sd out) =
     (case getInsn p of
        Inl e \<Rightarrow> Inl e
      | Inr insn \<Rightarrow>
          if pc AND 3 \<noteq> 0 then Inl VAssertFailed
          else if SLICE_UInt insn 1 0 = 1 \<and> SLICE_UInt insn 15 13 = 3 \<and> SLICE_UInt insn 11 7 \<noteq> 0
                  \<and> SLICE_UInt insn 11 7 \<noteq> 2
                  \<and> push_bit 17 (SLICE_UInt insn 12 12) OR push_bit 12 (SLICE_UInt insn 6 2) \<noteq> 0
          then (case offsetIReg64 (SLICE_UInt insn 11 7) of
                  Inl e \<Rightarrow> Inl e
                | Inr off \<Rightarrow>
                    Inr (True,
                         \<lparr>len = 4, whatNext = Dis_Continue, hint = Dis_HintNone, jk_StopHere = Ijk_INVALID\<rparr>,
                         irsb\<lparr>stmts := stmts irsb @
                           [IRStmt_Put off (IRExpr_Const (IRConst_U64 (signExtend_ref
                             (ucast (push_bit 17 (SLICE_UInt insn 12 12) OR push_bit 12 (SLICE_UInt insn 6 2)))
                             18)))]\<rparr>))
          else Inr (False,
                    \<lparr>len = 4, whatNext = Dis_Continue, hint = Dis_HintNone, jk_StopHere = Ijk_INVALID\<rparr>,
                    irsb))"
proof (cases "getInsn p")
  case (Inl e)
  then show ?thesis
    by (simp add: WRK_read_error WRK_outcome_def)
next
  case (Inr insn)
  show ?thesis
  proof (cases "pc AND 3 = 0")
    case False
    with Inr show ?thesis
      by (simp add: WRK_misaligned WRK_outcome_def)
  next
    case True
    show ?thesis
    proof (cases "SLICE_UInt insn 1 0 = 1 \<and> SLICE_UInt insn 15 13 = 3 \<and> SLICE_UInt insn 11 7 \<noteq> 0
                  \<and> SLICE_UInt insn 11 7 \<noteq> 2
                  \<and> push_bit 17 (SLICE_UInt insn 12 12) OR push_bit 12 (SLICE_UInt insn 6 2) \<noteq> 0")
      case accept: True
      then have a: "SLICE_UInt insn 1 0 = 1" "SLICE_UInt insn 15 13 = 3" "SLICE_UInt insn 11 7 \<noteq> 0"
        "SLICE_UInt insn 11 7 \<noteq> 2"
        "push_bit 17 (SLICE_UInt insn 12 12) OR push_bit 12 (SLICE_UInt insn 6 2) \<noteq> 0"
        by simp_all
      from WRK_accept [OF Inr True a, of t dres irsb sd out] Inr True accept
      show ?thesis
        by (auto simp add: WRK_outcome_def)
    next
      case reject: False
      then have "SLICE_UInt insn 1 0 \<noteq> 1 \<or> SLICE_UInt insn 15 13 \<noteq> 3 \<or> SLICE_UInt insn 11 7 = 0
         \<or> SLICE_UInt insn 11 7 = 2
         \<or> push_bit 17 (SLICE_UInt insn 12 12) OR push_bit 12 (SLICE_UInt insn 6 2) = 0"
        by blast
      from WRK_reject [OF Inr True this, of t dres irsb sd out] Inr True reject
      show ?thesis
        by (auto simp add: WRK_outcome_def)
    qed
  qed
qed

lemma decode_outcome_cases:
  "decode_outcome (disInstr_RISCV64 t irsb gc delta ip arch sd out) =
     (if arch \<noteq> VexArchRISCV64 then Inl VAssertFailed
      else case getInsn (window_at gc delta) of
        Inl e \<Rightarrow> Inl e
      | Inr insn \<Rightarrow>
          if ip AND 3 \<noteq> 0 then Inl VAssertFailed
          else if SLICE_UInt insn 1 0 = 1 \<and> SLICE_UInt insn 15 13 = 3 \<and> SLICE_UInt insn 11 7 \<noteq> 0
                  \<and> SLICE_UInt insn 11 7 \<noteq> 2
                  \<and> push_bit 17 (SLICE_UInt insn 12 12) OR push_bit 12 (SLICE_UInt insn 6 2) \<noteq> 0
          then (case offsetIReg64 (SLICE_UInt insn 11 7) of
                  Inl e \<Rightarrow> Inl e
                | Inr off \<Rightarrow>
                    Inr (\<lparr>len = 4, whatNext = Dis_Continue, hint = Dis_HintNone, jk_StopHere = Ijk_INVALID\<rparr>,
                         irsb\<lparr>stmts := stmts irsb @
                           [IRStmt_Put off (IRExpr_Const (IRConst_U64 (signExtend_ref
                             (ucast (push_bit 17 (SLICE_UInt insn 12 12) OR push_bit 12 (SLICE_UInt insn 6 2)))
                             18))),
                            IRStmt_Put OFFB_PC (IRExpr_Const (IRConst_U64 (ip + 4)))]\<rparr>))
          else Inr (\<lparr>len = 0, whatNext = Dis_StopHere, hint = Dis_HintNone, jk_StopHere = Ijk_NoDecode\<rparr>,
                    irsb\<lparr>stmts := stmts irsb @ [IRStmt_Put OFFB_PC (IRExpr_Const (IRConst_U64 ip))]\<rparr>))"
proof (cases "arch = VexArchRISCV64")
  case False
  then show ?thesis
    by (simp add: driver_wrong_arch decode_outcome_def)
next
  case arch: True
  show ?thesis
  proof (cases "getInsn (window_at gc delta)")
    case (Inl e)
    with arch show ?thesis
      by (simp add: driver_read_error decode_outcome_def)
  next
    case (Inr insn)
    show ?thesis
    proof (cases "ip AND 3 = 0")
      case False
      with Inr arch show ?thesis
        by (simp add: driver_misaligned decode_outcome_def)
    next
      case True
      show ?thesis
      proof (cases "SLICE_UInt insn 1 0 = 1 \<and> SLICE_UInt insn 15 13 = 3 \<and> SLICE_UInt insn 11 7 \<noteq> 0
                  \<and> SLICE_UInt insn 11 7 \<noteq> 2
                  \<and> push_bit 17 (SLICE_UInt insn 12 12) OR push_bit 12 (SLICE_UInt insn 6 2) \<noteq> 0")
        case accept: True
        then have a: "SLICE_UInt insn 1 0 = 1" "SLICE_UInt insn 15 13 = 3" "SLICE_UInt insn 11 7 \<noteq> 0"
          "SLICE_UInt insn 11 7 \<noteq> 2"
          "push_bit 17 (SLICE_UInt insn 12 12) OR push_bit 12 (SLICE_UInt insn 6 2) \<noteq> 0"
          by simp_all
        from driver_accept [OF Inr True a, of t irsb sd out] Inr True accept arch
        show ?thesis
          by (auto simp add: decode_outcome_def)
      next
        case reject: False
        then have "SLICE_UInt insn 1 0 \<noteq> 1 \<or> SLICE_UInt insn 15 13 \<noteq> 3 \<or> SLICE_UInt insn 11 7 = 0
           \<or> SLICE_UInt insn 11 7 = 2
           \<or> push_bit 17 (SLICE_UInt insn 12 12) OR push_bit 12 (SLICE_UInt insn 6 2) = 0"
          by blast
        from driver_reject [OF Inr True this, of t irsb sd out] Inr True reject arch
        show ?thesis
          by (auto simp add: decode_outcome_def)
      qed
    qed
  qed
qed

text \<open>
  Claim C9. For every byte window and program counter, the result of a decode call
  apart from the trace output (the abort, or the result record and the statements of
  the block; for the worker also the flag) is the same whatever the trace flag, the
  \<^verbatim>\<open>sigill_diag\<close> flag and the earlier trace output are.
\<close>

theorem diagnostics_do_not_affect_decoding:
  "decode_outcome (disInstr_RISCV64 trace_fe irsb guest_code delta guest_IP guest_arch sigill_diag out)
     = decode_outcome (disInstr_RISCV64 trace_fe' irsb guest_code delta guest_IP guest_arch sigill_diag' out')
   \<and> WRK_outcome (disInstr_RISCV64_WRK trace_fe dres irsb p guest_IP sigill_diag out)
     = WRK_outcome (disInstr_RISCV64_WRK trace_fe' dres irsb p guest_IP sigill_diag' out')"
  by (simp only: decode_outcome_cases WRK_outcome_cases)

theorem diagnostics_do_not_affect_decoding_witness:
  "decode_outcome (disInstr_RISCV64 True \<lparr>tyenv = [], stmts = []\<rparr> [0 \<mapsto> 0x01, 1 \<mapsto> 0x60] 0 0x1000
      VexArchRISCV64 True [])
     = decode_outcome (disInstr_RISCV64 False \<lparr>tyenv = [], stmts = []\<rparr> [0 \<mapsto> 0x01, 1 \<mapsto> 0x60] 0 0x1000
      VexArchRISCV64 False [])"
  by (rule conjunct1 [OF diagnostics_do_not_affect_decoding])


subsection \<open>Claims about the decoders\<close>

text \<open>
  Claim C5. For every instruction word of quadrant 01 with bits 15 to 13 equal to
  011 whose register field is 0 or 2, or whose immediate is zero, the decoder of
  quadrant 01 returns failure with the result record and the block it was given.
\<close>

theorem c_lui_rejection_is_atomic:
  fixes insn :: UInt
  assumes "insn AND 3 = 1" and "drop_bit 13 insn AND 7 = 3"
    and "drop_bit 7 insn AND 31 = 0 \<or> drop_bit 7 insn AND 31 = 2
         \<or> push_bit 17 (drop_bit 12 insn AND 1) OR push_bit 12 (drop_bit 2 insn AND 31) = 0"
  shows "\<exists>out'. dis_RISCV64_compressed_01 trace_fe dres irsb insn sigill_diag out
                  = Inr (False, dres, irsb, out')"
proof -
  have "SLICE_UInt insn 15 13 \<noteq> 3 \<or> SLICE_UInt insn 11 7 = 0 \<or> SLICE_UInt insn 11 7 = 2
           \<or> push_bit 17 (SLICE_UInt insn 12 12) OR push_bit 12 (SLICE_UInt insn 6 2) = 0"
    using assms(3) by (simp only: INSN_fields) blast
  from c01_reject [OF this] show ?thesis
    by blast
qed

theorem c_lui_rejection_is_atomic_witness:
  "(0x6005 :: UInt) AND 3 = 1 \<and> drop_bit 13 (0x6005 :: UInt) AND 7 = 3
   \<and> drop_bit 7 (0x6005 :: UInt) AND 31 = 0
   \<and> dis_RISCV64_compressed_01 False
         \<lparr>len = 4, whatNext = Dis_Continue, hint = Dis_HintNone, jk_StopHere = Ijk_INVALID\<rparr>
         \<lparr>tyenv = [], stmts = [IRStmt_Put OFFB_PC (IRExpr_Const (IRConst_U64 0x1000))]\<rparr>
         0x6005 False []
       = Inr (False,
              \<lparr>len = 4, whatNext = Dis_Continue, hint = Dis_HintNone, jk_StopHere = Ijk_INVALID\<rparr>,
              \<lparr>tyenv = [], stmts = [IRStmt_Put OFFB_PC (IRExpr_Const (IRConst_U64 0x1000))]\<rparr>,
              [])"
proof -
  have h1: "(0x6005 :: UInt) AND 3 = 1" by simp
  have h2: "drop_bit 13 (0x6005 :: UInt) AND 7 = 3" by simp
  have h3: "drop_bit 7 (0x6005 :: UInt) AND 31 = 0 \<or> drop_bit 7 (0x6005 :: UInt) AND 31 = 2
         \<or> push_bit 17 (drop_bit 12 (0x6005 :: UInt) AND 1) OR push_bit 12 (drop_bit 2 (0x6005 :: UInt) AND 31) = 0"
    by simp
  from c_lui_rejection_is_atomic [OF h1 h2 h3, of False
      "\<lparr>len = 4, whatNext = Dis_Continue, hint = Dis_HintNone, jk_StopHere = Ijk_INVALID\<rparr>"
      "\<lparr>tyenv = [], stmts = [IRStmt_Put OFFB_PC (IRExpr_Const (IRConst_U64 0x1000))]\<rparr>" False "[]"]
  obtain out' where r: "dis_RISCV64_compressed_01 False
         \<lparr>len = 4, whatNext = Dis_Continue, hint = Dis_HintNone, jk_StopHere = Ijk_INVALID\<rparr>
         \<lparr>tyenv = [], stmts = [IRStmt_Put OFFB_PC (IRExpr_Const (IRConst_U64 0x1000))]\<rparr>
         0x6005 False []
       = Inr (False,
              \<lparr>len = 4, whatNext = Dis_Continue, hint = Dis_HintNone, jk_StopHere = Ijk_INVALID\<rparr>,
              \<lparr>tyenv = [], stmts = [IRStmt_Put OFFB_PC (IRExpr_Const (IRConst_U64 0x1000))]\<rparr>,
              out')"
    by blast
  have "out' = []"
    using r by (simp add: dis_RISCV64_compressed_01_def SLICE_UInt_def BITS3_def)
  with r h1 h2 show ?thesis
    by simp
qed

subsection \<open>Concrete runs\<close>

lemma offsetIReg64_rd_no_error: "offsetIReg64 (SLICE_UInt insn 11 7) \<noteq> Inl e"
  using offsetIReg64_defined [OF rd_less, of insn] by auto

lemma WRK_run_rd0:
  "disInstr_RISCV64_WRK False DisResult_bzero \<lparr>tyenv = [], stmts = []\<rparr> [0 \<mapsto> 0x05, 1 \<mapsto> 0x60]
         0x1000 False []
       = Inr (False, \<lparr>len = 4, whatNext = Dis_Continue, hint = Dis_HintNone, jk_StopHere = Ijk_INVALID\<rparr>,
              \<lparr>tyenv = [], stmts = []\<rparr>, [])"
  by (simp add: disInstr_RISCV64_WRK_def getInsn_def read_byte_def DisResult_bzero_def DIP_def
        SLICE_UInt_def X00_def X01_def BITS2_def BITS3_def dis_RISCV64_compressed_01_def
        disInstr_RISCV64_WRK_switch_def disInstr_RISCV64_WRK_finish_def)

lemma WRK_run_halfword_aligned_pc:
  "disInstr_RISCV64_WRK False DisResult_bzero \<lparr>tyenv = [], stmts = []\<rparr> [0 \<mapsto> 0x05, 1 \<mapsto> 0x65]
         0x1002 False [] = Inl VAssertFailed"
  by (simp add: disInstr_RISCV64_WRK_def getInsn_def read_byte_def DisResult_bzero_def DIP_def)

lemma WRK_run_c_lui:
  "disInstr_RISCV64_WRK False DisResult_bzero \<lparr>tyenv = [], stmts = []\<rparr> [0 \<mapsto> 0x05, 1 \<mapsto> 0x65]
         0x1000 False []
       = Inr (True, \<lparr>len = 4, whatNext = Dis_Continue, hint = Dis_HintNone, jk_StopHere = Ijk_INVALID\<rparr>,
              \<lparr>tyenv = [], stmts = [IRStmt_Put OFFB_X10 (IRExpr_Const (IRConst_U64 0x1000))]\<rparr>, [])"
  by (simp add: disInstr_RISCV64_WRK_def getInsn_def read_byte_def DisResult_bzero_def DIP_def
        SLICE_UInt_def X00_def X01_def BITS2_def BITS3_def dis_RISCV64_compressed_01_def
        disInstr_RISCV64_WRK_switch_def disInstr_RISCV64_WRK_finish_def sx_to_64_def putIReg64_def mkU64_def offsetIReg64_def stmt_def
        addStmtToIRSB_def)

subsection \<open>Claims about the worker\<close>

text \<open>
  Claim C1, as amended. For every instruction word whose low two bits are 01 and
  whose bits 15 to 13 are 011, with \<open>rd\<close> (bits 11 to 7) neither 0 nor 2 and
  \<open>nzimm\<close> (bit 12 at position 17, bits 6 to 2 at positions 16 to 12) not zero, the
  decoder of quadrant 01 reports success, appends the write of the 64-bit constant
  \<open>signExtend(nzimm, 18)\<close> to register \<open>rd\<close> and leaves the result record as it
  was given. The record that \<^verbatim>\<open>disInstr_RISCV64_WRK\<close> returns for such a word
  therefore has the default length 4 and \<^verbatim>\<open>Dis_Continue\<close>.
\<close>

theorem c_lui_keeps_default_length:
  fixes insn rd nzimm :: UInt
  assumes "insn AND 3 = 1" and "drop_bit 13 insn AND 7 = 3"
    and "rd = drop_bit 7 insn AND 31" and "rd \<noteq> 0" and "rd \<noteq> 2"
    and "nzimm = push_bit 17 (drop_bit 12 insn AND 1) OR push_bit 12 (drop_bit 2 insn AND 31)"
    and "nzimm \<noteq> 0"
  shows "\<exists>off. offsetIReg64 rd = Inr off
           \<and> (\<exists>out'. dis_RISCV64_compressed_01 trace_fe dres irsb insn sigill_diag out =
                 Inr (True, dres,
                      irsb\<lparr>stmts := stmts irsb @
                        [IRStmt_Put off (IRExpr_Const (IRConst_U64 (signExtend_ref (ucast nzimm) 18)))]\<rparr>,
                      out'))
           \<and> (getInsn p = Inr insn \<and> unat pc mod 4 = 0 \<longrightarrow>
                (\<exists>out'. disInstr_RISCV64_WRK trace_fe dres irsb p pc sigill_diag out =
                   Inr (True,
                        \<lparr>len = 4, whatNext = Dis_Continue, hint = Dis_HintNone, jk_StopHere = Ijk_INVALID\<rparr>,
                        irsb\<lparr>stmts := stmts irsb @
                          [IRStmt_Put off (IRExpr_Const (IRConst_U64 (signExtend_ref (ucast nzimm) 18)))]\<rparr>,
                        out')))"
proof -
  have q: "SLICE_UInt insn 1 0 = 1"
    unfolding INSN_fields by (rule assms(1))
  have a: "SLICE_UInt insn 15 13 = 3" "SLICE_UInt insn 11 7 \<noteq> 0" "SLICE_UInt insn 11 7 \<noteq> 2"
    "push_bit 17 (SLICE_UInt insn 12 12) OR push_bit 12 (SLICE_UInt insn 6 2) \<noteq> 0"
    using assms(2-7) by (simp_all add: INSN_fields)
  have rd: "SLICE_UInt insn 11 7 = rd"
    and nz: "push_bit 17 (SLICE_UInt insn 12 12) OR push_bit 12 (SLICE_UInt insn 6 2) = nzimm"
    using assms(3,6) by (simp_all add: INSN_fields)
  from c01_accept [OF a, of trace_fe dres irsb sigill_diag out]
  obtain off where off: "offsetIReg64 rd = Inr off"
    and rule: "\<exists>out'. dis_RISCV64_compressed_01 trace_fe dres irsb insn sigill_diag out =
                 Inr (True, dres,
                      irsb\<lparr>stmts := stmts irsb @
                        [IRStmt_Put off (IRExpr_Const (IRConst_U64 (signExtend_ref (ucast nzimm) 18)))]\<rparr>,
                      out')"
    unfolding rd nz by blast
  have "\<exists>out'. disInstr_RISCV64_WRK trace_fe dres irsb p pc sigill_diag out =
                   Inr (True,
                        \<lparr>len = 4, whatNext = Dis_Continue, hint = Dis_HintNone, jk_StopHere = Ijk_INVALID\<rparr>,
                        irsb\<lparr>stmts := stmts irsb @
                          [IRStmt_Put off (IRExpr_Const (IRConst_U64 (signExtend_ref (ucast nzimm) 18)))]\<rparr>,
                        out')"
    if "getInsn p = Inr insn \<and> unat pc mod 4 = 0"
  proof -
    from that have g: "getInsn p = Inr insn" and al: "pc AND 3 = 0"
      by (simp_all add: aligned_iff)
    from WRK_accept [OF g al q a, of trace_fe dres irsb sigill_diag out] off
    show ?thesis
      unfolding rd nz by auto
  qed
  with off rule show ?thesis
    by blast
qed

text \<open>
  The claim C1 as stated, with a length of 2, fails for \<^verbatim>\<open>c.lui a0, 0x1\<close>, the
  word \<open>0x6505\<close>: the result record has the length 4.
\<close>

theorem c_lui_length_counterexample:
  "(0x6505 :: UInt) AND 3 = 1
   \<and> drop_bit 13 (0x6505 :: UInt) AND 7 = 3
   \<and> drop_bit 7 (0x6505 :: UInt) AND 31 = 10
   \<and> push_bit 17 (drop_bit 12 (0x6505 :: UInt) AND 1) OR push_bit 12 (drop_bit 2 (0x6505 :: UInt) AND 31)
       = 0x1000
   \<and> getInsn [0 \<mapsto> 0x05, 1 \<mapsto> 0x65] = Inr 0x6505
   \<and> disInstr_RISCV64_WRK False DisResult_bzero \<lparr>tyenv = [], stmts = []\<rparr> [0 \<mapsto> 0x05, 1 \<mapsto> 0x65]
         0x1000 False []
       = Inr (True, \<lparr>len = 4, whatNext = Dis_Continue, hint = Dis_HintNone, jk_StopHere = Ijk_INVALID\<rparr>,
              \<lparr>tyenv = [], stmts = [IRStmt_Put OFFB_X10 (IRExpr_Const (IRConst_U64 0x1000))]\<rparr>, [])
   \<and> len \<lparr>len = 4, whatNext = Dis_Continue, hint = Dis_HintNone, jk_StopHere = Ijk_INVALID\<rparr> \<noteq> 2"
  using WRK_run_c_lui by (simp add: getInsn_def read_byte_def)

theorem c_lui_keeps_default_length_witness:
  "(0x6505 :: UInt) AND 3 = 1
   \<and> drop_bit 13 (0x6505 :: UInt) AND 7 = 3
   \<and> (10 :: UInt) = drop_bit 7 (0x6505 :: UInt) AND 31
   \<and> (0x1000 :: UInt)
       = push_bit 17 (drop_bit 12 (0x6505 :: UInt) AND 1) OR push_bit 12 (drop_bit 2 (0x6505 :: UInt) AND 31)
   \<and> getInsn [0 \<mapsto> 0x05, 1 \<mapsto> 0x65] = Inr 0x6505
   \<and> unat (0x1000 :: Addr) mod 4 = 0
   \<and> offsetIReg64 10 = Inr OFFB_X10
   \<and> signExtend_ref (ucast (0x1000 :: UInt)) 18 = 0x1000
   \<and> (\<exists>out'. disInstr_RISCV64_WRK False DisResult_bzero \<lparr>tyenv = [], stmts = []\<rparr>
                 [0 \<mapsto> 0x05, 1 \<mapsto> 0x65] 0x1000 False []
         = Inr (True, \<lparr>len = 4, whatNext = Dis_Continue, hint = Dis_HintNone, jk_StopHere = Ijk_INVALID\<rparr>,
                \<lparr>tyenv = [], stmts = [IRStmt_Put OFFB_X10 (IRExpr_Const (IRConst_U64 0x1000))]\<rparr>, out'))"
proof -
  let ?p = "[0 \<mapsto> 0x05, 1 \<mapsto> 0x65] :: byte_window"
  have h1: "(0x6505 :: UInt) AND 3 = 1" by simp
  have h2: "drop_bit 13 (0x6505 :: UInt) AND 7 = 3" by simp
  have h3: "(10 :: UInt) = drop_bit 7 (0x6505 :: UInt) AND 31" by simp
  have h4: "(10 :: UInt) \<noteq> 0" by simp
  have h5: "(10 :: UInt) \<noteq> 2" by simp
  have h6: "(0x1000 :: UInt)
       = push_bit 17 (drop_bit 12 (0x6505 :: UInt) AND 1) OR push_bit 12 (drop_bit 2 (0x6505 :: UInt) AND 31)"
    by simp
  have h7: "(0x1000 :: UInt) \<noteq> 0" by simp
  have g: "getInsn ?p = Inr 0x6505"
    by (simp add: getInsn_def read_byte_def)
  have al: "unat (0x1000 :: Addr) mod 4 = 0" by simp
  have off: "offsetIReg64 10 = Inr OFFB_X10"
    by (simp add: offsetIReg64_def)
  have sx: "signExtend_ref (ucast (0x1000 :: UInt)) 18 = 0x1000"
    by (simp add: signExtend_ref_def)
  from c_lui_keeps_default_length [OF h1 h2 h3 h4 h5 h6 h7, of False DisResult_bzero
      "\<lparr>tyenv = [], stmts = []\<rparr>" False "[]" ?p "0x1000"] g al off sx
  have "\<exists>out'. disInstr_RISCV64_WRK False DisResult_bzero \<lparr>tyenv = [], stmts = []\<rparr> ?p 0x1000 False []
         = Inr (True, \<lparr>len = 4, whatNext = Dis_Continue, hint = Dis_HintNone, jk_StopHere = Ijk_INVALID\<rparr>,
                \<lparr>tyenv = [], stmts = [IRStmt_Put OFFB_X10 (IRExpr_Const (IRConst_U64 0x1000))]\<rparr>, out')"
    by auto
  with h1 h2 h3 h6 g al off sx show ?thesis
    by blast
qed

lemma WRK_switch_failure_keeps:
  assumes "disInstr_RISCV64_WRK_switch t dres irsb insn sd out = Inr (False, d, i, out')"
  shows "d = dres \<and> i = irsb"
proof (cases "SLICE_UInt insn 1 0 = 1")
  case q01: True
  then have run: "dis_RISCV64_compressed_01 t dres irsb insn sd out = Inr (False, d, i, out')"
    using assms by (simp add: disInstr_RISCV64_WRK_switch_def X00_def X01_def BITS2_def)
  show ?thesis
  proof (cases "SLICE_UInt insn 15 13 = 3 \<and> SLICE_UInt insn 11 7 \<noteq> 0 \<and> SLICE_UInt insn 11 7 \<noteq> 2
                \<and> push_bit 17 (SLICE_UInt insn 12 12) OR push_bit 12 (SLICE_UInt insn 6 2) \<noteq> 0")
    case True
    then have a: "SLICE_UInt insn 15 13 = 3" "SLICE_UInt insn 11 7 \<noteq> 0" "SLICE_UInt insn 11 7 \<noteq> 2"
      "push_bit 17 (SLICE_UInt insn 12 12) OR push_bit 12 (SLICE_UInt insn 6 2) \<noteq> 0"
      by simp_all
    from c01_accept [OF a, of t dres irsb sd out] run show ?thesis
      by auto
  next
    case False
    then have "SLICE_UInt insn 15 13 \<noteq> 3 \<or> SLICE_UInt insn 11 7 = 0 \<or> SLICE_UInt insn 11 7 = 2
           \<or> push_bit 17 (SLICE_UInt insn 12 12) OR push_bit 12 (SLICE_UInt insn 6 2) = 0"
      by blast
    from c01_reject [OF this, of t dres irsb sd out] run show ?thesis
      by simp
  qed
next
  case False
  with quadrant_cases [of insn] assms show ?thesis
    by (auto simp add: disInstr_RISCV64_WRK_switch_def X00_def X01_def X10_def X11_def BITS2_def
          dis_RISCV64_compressed_00_def dis_RISCV64_compressed_10_def)
qed

lemma WRK_is_switch_then_finish:
  assumes "getInsn p = Inr insn" and "pc AND 3 = 0"
    and "disInstr_RISCV64_WRK_switch t
           \<lparr>len = 4, whatNext = Dis_Continue, hint = Dis_HintNone, jk_StopHere = Ijk_INVALID\<rparr>
           irsb insn sd (DIP t (CHR 0x09 # ''(riscv64) 0x%llx:  '') [Arg_ULong pc] out)
         = Inr (ok, d, i, out')"
  shows "disInstr_RISCV64_WRK t dres irsb p pc sd out = disInstr_RISCV64_WRK_finish ok d i out'"
  using assms by (simp add: disInstr_RISCV64_WRK_def Let_def DisResult_defaults)

text \<open>
  Claim C4. Whenever \<^verbatim>\<open>disInstr_RISCV64_WRK\<close> returns false, the result record
  it returns still has the defaults set at its start: \<^verbatim>\<open>whatNext\<close> is
  \<^verbatim>\<open>Dis_Continue\<close>, \<^verbatim>\<open>len\<close> is 4 and \<^verbatim>\<open>jk_StopHere\<close> is \<^verbatim>\<open>Ijk_INVALID\<close>.
  The worker verifies this before it returns: whatever the decoder of the quadrant
  returned, with readable bytes and an aligned program counter the result of the
  worker is the result of its final check on what that decoder left. On a failed
  decode the check returns it unchanged if the result record has the defaults, and
  is a failed assertion for every other record. The decoders of this file keep the
  record and the block they were given when they fail, so the assertion holds.
\<close>

theorem failed_decode_leaves_defaults:
  "(disInstr_RISCV64_WRK trace_fe dres irsb p pc sigill_diag out = Inr (False, dres', irsb', out')
      \<longrightarrow> whatNext dres' = Dis_Continue \<and> len dres' = 4 \<and> jk_StopHere dres' = Ijk_INVALID
          \<and> hint dres' = Dis_HintNone)
   \<and> (getInsn p = Inr insn \<and> unat pc mod 4 = 0
       \<and> disInstr_RISCV64_WRK_switch trace_fe
            \<lparr>len = 4, whatNext = Dis_Continue, hint = Dis_HintNone, jk_StopHere = Ijk_INVALID\<rparr>
            irsb insn sigill_diag
            (DIP trace_fe (CHR 0x09 # ''(riscv64) 0x%llx:  '') [Arg_ULong pc] out)
          = Inr (ok, d, i, out1)
      \<longrightarrow> disInstr_RISCV64_WRK trace_fe dres irsb p pc sigill_diag out
            = disInstr_RISCV64_WRK_finish ok d i out1)
   \<and> (whatNext d = Dis_Continue \<and> len d = 4 \<and> jk_StopHere d = Ijk_INVALID
      \<longrightarrow> disInstr_RISCV64_WRK_finish False d i out1 = Inr (False, d, i, out1))
   \<and> (whatNext d \<noteq> Dis_Continue \<or> len d \<noteq> 4 \<or> jk_StopHere d \<noteq> Ijk_INVALID
      \<longrightarrow> disInstr_RISCV64_WRK_finish False d i out1 = Inl VAssertFailed)
   \<and> (disInstr_RISCV64_WRK_switch trace_fe d0 irsb insn sigill_diag out = Inr (False, d, i, out1)
      \<longrightarrow> d = d0 \<and> i = irsb)"
proof -
  have "whatNext dres' = Dis_Continue \<and> len dres' = 4 \<and> jk_StopHere dres' = Ijk_INVALID
          \<and> hint dres' = Dis_HintNone"
    if r: "disInstr_RISCV64_WRK trace_fe dres irsb p pc sigill_diag out = Inr (False, dres', irsb', out')"
  proof -
    from r have "WRK_outcome (disInstr_RISCV64_WRK trace_fe dres irsb p pc sigill_diag out)
                 = Inr (False, dres', irsb')"
      by (simp add: WRK_outcome_def)
    then have "dres' = \<lparr>len = 4, whatNext = Dis_Continue, hint = Dis_HintNone, jk_StopHere = Ijk_INVALID\<rparr>"
      unfolding WRK_outcome_cases by (simp split: sum.splits if_splits)
    then show ?thesis
      by simp
  qed
  moreover have "disInstr_RISCV64_WRK trace_fe dres irsb p pc sigill_diag out
            = disInstr_RISCV64_WRK_finish ok d i out1"
    if "getInsn p = Inr insn \<and> unat pc mod 4 = 0
       \<and> disInstr_RISCV64_WRK_switch trace_fe
            \<lparr>len = 4, whatNext = Dis_Continue, hint = Dis_HintNone, jk_StopHere = Ijk_INVALID\<rparr>
            irsb insn sigill_diag
            (DIP trace_fe (CHR 0x09 # ''(riscv64) 0x%llx:  '') [Arg_ULong pc] out)
          = Inr (ok, d, i, out1)"
    using that by (simp add: WRK_is_switch_then_finish aligned_iff)
  moreover have "disInstr_RISCV64_WRK_finish False d i out1 = Inr (False, d, i, out1)"
    if "whatNext d = Dis_Continue \<and> len d = 4 \<and> jk_StopHere d = Ijk_INVALID"
    using that by (simp add: disInstr_RISCV64_WRK_finish_def)
  moreover have "disInstr_RISCV64_WRK_finish False d i out1 = Inl VAssertFailed"
    if "whatNext d \<noteq> Dis_Continue \<or> len d \<noteq> 4 \<or> jk_StopHere d \<noteq> Ijk_INVALID"
    using that by (auto simp add: disInstr_RISCV64_WRK_finish_def)
  moreover have "d = d0 \<and> i = irsb"
    if "disInstr_RISCV64_WRK_switch trace_fe d0 irsb insn sigill_diag out = Inr (False, d, i, out1)"
    using that by (rule WRK_switch_failure_keeps)
  ultimately show ?thesis
    by blast
qed

theorem failed_decode_leaves_defaults_witness:
  "getInsn [0 \<mapsto> 0x05, 1 \<mapsto> 0x60] = Inr 0x6005
   \<and> unat (0x1000 :: Addr) mod 4 = 0
   \<and> disInstr_RISCV64_WRK_switch False
         \<lparr>len = 4, whatNext = Dis_Continue, hint = Dis_HintNone, jk_StopHere = Ijk_INVALID\<rparr>
         \<lparr>tyenv = [], stmts = []\<rparr> 0x6005 False []
       = Inr (False, \<lparr>len = 4, whatNext = Dis_Continue, hint = Dis_HintNone, jk_StopHere = Ijk_INVALID\<rparr>,
              \<lparr>tyenv = [], stmts = []\<rparr>, [])
   \<and> disInstr_RISCV64_WRK False DisResult_bzero \<lparr>tyenv = [], stmts = []\<rparr> [0 \<mapsto> 0x05, 1 \<mapsto> 0x60]
         0x1000 False []
       = disInstr_RISCV64_WRK_finish False
           \<lparr>len = 4, whatNext = Dis_Continue, hint = Dis_HintNone, jk_StopHere = Ijk_INVALID\<rparr>
           \<lparr>tyenv = [], stmts = []\<rparr> []
   \<and> disInstr_RISCV64_WRK False DisResult_bzero \<lparr>tyenv = [], stmts = []\<rparr> [0 \<mapsto> 0x05, 1 \<mapsto> 0x60]
         0x1000 False []
       = Inr (False, \<lparr>len = 4, whatNext = Dis_Continue, hint = Dis_HintNone, jk_StopHere = Ijk_INVALID\<rparr>,
              \<lparr>tyenv = [], stmts = []\<rparr>, [])
   \<and> len \<lparr>len = 2, whatNext = Dis_Continue, hint = Dis_HintNone, jk_StopHere = Ijk_INVALID\<rparr> \<noteq> 4
   \<and> disInstr_RISCV64_WRK_finish False
         \<lparr>len = 2, whatNext = Dis_Continue, hint = Dis_HintNone, jk_StopHere = Ijk_INVALID\<rparr>
         \<lparr>tyenv = [], stmts = []\<rparr> []
       = Inl VAssertFailed"
proof -
  let ?p = "[0 \<mapsto> 0x05, 1 \<mapsto> 0x60] :: byte_window"
  let ?i = "\<lparr>tyenv = [], stmts = []\<rparr>"
  let ?d4 = "\<lparr>len = 4, whatNext = Dis_Continue, hint = Dis_HintNone, jk_StopHere = Ijk_INVALID\<rparr>"
  let ?d2 = "\<lparr>len = 2, whatNext = Dis_Continue, hint = Dis_HintNone, jk_StopHere = Ijk_INVALID\<rparr>"
  have g: "getInsn ?p = Inr 0x6005"
    by (simp add: getInsn_def read_byte_def)
  have al: "unat (0x1000 :: Addr) mod 4 = 0"
    by simp
  have sw: "disInstr_RISCV64_WRK_switch False ?d4 ?i 0x6005 False
              (DIP False (CHR 0x09 # ''(riscv64) 0x%llx:  '') [Arg_ULong 0x1000] [])
            = Inr (False, ?d4, ?i, [])"
    by (simp add: disInstr_RISCV64_WRK_switch_def DIP_def SLICE_UInt_def X00_def X01_def BITS2_def
          BITS3_def dis_RISCV64_compressed_01_def)
  have a: "whatNext ?d4 = Dis_Continue \<and> len ?d4 = 4 \<and> jk_StopHere ?d4 = Ijk_INVALID"
    by simp
  have b: "whatNext ?d2 \<noteq> Dis_Continue \<or> len ?d2 \<noteq> 4 \<or> jk_StopHere ?d2 \<noteq> Ijk_INVALID"
    by simp
  note t4 = failed_decode_leaves_defaults [where d = ?d4 and trace_fe = False
      and dres = DisResult_bzero and irsb = ?i and p = ?p and pc = "0x1000" and sigill_diag = False
      and out = "[]" and dres' = ?d4 and irsb' = ?i and out' = "[]" and insn = "0x6005"
      and ok = False and i = ?i and ?out1.0 = "[]" and ?d0.0 = ?d4]
  note t2 = failed_decode_leaves_defaults [where d = ?d2 and i = ?i and ?out1.0 = "[]"]
  from t4 g al sw have link: "disInstr_RISCV64_WRK False DisResult_bzero ?i ?p 0x1000 False []
      = disInstr_RISCV64_WRK_finish False ?d4 ?i []"
    by blast
  from t4 a have pass: "disInstr_RISCV64_WRK_finish False ?d4 ?i [] = Inr (False, ?d4, ?i, [])"
    by blast
  from t4 WRK_run_rd0 have "len ?d4 = 4"
    by blast
  from t2 b have fail: "disInstr_RISCV64_WRK_finish False ?d2 ?i [] = Inl VAssertFailed"
    by blast
  have sw': "disInstr_RISCV64_WRK_switch False ?d4 ?i 0x6005 False [] = Inr (False, ?d4, ?i, [])"
    using sw by (simp add: DIP_def)
  from g al sw' link pass fail show ?thesis
    by simp
qed

text \<open>
  Claim C10. Every decode call asserts that the program counter of the instruction
  is a multiple of 4. With the instruction bytes readable, a program counter that is
  not a multiple of 4 ends the worker with a failed assertion; with a multiple of 4
  no assertion of the worker fails, and with readable bytes it returns. A call of
  the top-level function with a program counter that is 2 modulo 4 aborts with a
  failed assertion instead of decoding.
\<close>

theorem pc_alignment_is_asserted:
  "(getInsn p = Inr insn \<and> unat pc mod 4 \<noteq> 0
      \<longrightarrow> disInstr_RISCV64_WRK trace_fe dres irsb p pc sigill_diag out = Inl VAssertFailed)
   \<and> (unat pc mod 4 = 0
      \<longrightarrow> disInstr_RISCV64_WRK trace_fe dres irsb p pc sigill_diag out \<noteq> Inl VAssertFailed)
   \<and> (getInsn p = Inr insn \<and> unat pc mod 4 = 0
      \<longrightarrow> (\<exists>r. disInstr_RISCV64_WRK trace_fe dres irsb p pc sigill_diag out = Inr r))
   \<and> (getInsn (window_at guest_code delta) = Inr insn' \<and> unat pc mod 4 = 2
      \<longrightarrow> disInstr_RISCV64 trace_fe irsb guest_code delta pc VexArchRISCV64 sigill_diag out
            = Inl VAssertFailed)"
proof -
  let ?run = "disInstr_RISCV64_WRK trace_fe dres irsb p pc sigill_diag out"
  have "?run = Inl VAssertFailed" if "getInsn p = Inr insn \<and> unat pc mod 4 \<noteq> 0"
    using that by (simp add: WRK_misaligned aligned_iff)
  moreover have "?run \<noteq> Inl VAssertFailed" if al: "unat pc mod 4 = 0"
  proof
    assume "?run = Inl VAssertFailed"
    then have "WRK_outcome ?run = Inl VAssertFailed"
      by (simp add: WRK_outcome_def)
    then show False
      unfolding WRK_outcome_cases using al
      by (auto simp add: aligned_iff offsetIReg64_rd_no_error split: sum.splits if_splits
            dest: getInsn_error)
  qed
  moreover have "\<exists>r. ?run = Inr r" if rd: "getInsn p = Inr insn \<and> unat pc mod 4 = 0"
  proof (cases ?run)
    case (Inl e)
    then have "WRK_outcome ?run = Inl e"
      by (simp add: WRK_outcome_def)
    then show ?thesis
      unfolding WRK_outcome_cases using rd
      by (auto simp add: aligned_iff offsetIReg64_rd_no_error split: sum.splits if_splits)
  next
    case (Inr r)
    then show ?thesis by blast
  qed
  moreover have "disInstr_RISCV64 trace_fe irsb guest_code delta pc VexArchRISCV64 sigill_diag out
            = Inl VAssertFailed"
    if "getInsn (window_at guest_code delta) = Inr insn' \<and> unat pc mod 4 = 2"
    using that by (simp add: driver_misaligned aligned_iff)
  ultimately show ?thesis
    by blast
qed

theorem pc_alignment_is_asserted_witness:
  "getInsn [0 \<mapsto> 0x05, 1 \<mapsto> 0x65] = Inr 0x6505
   \<and> unat (0x1002 :: Addr) mod 4 = 2
   \<and> disInstr_RISCV64_WRK False DisResult_bzero \<lparr>tyenv = [], stmts = []\<rparr> [0 \<mapsto> 0x05, 1 \<mapsto> 0x65]
         0x1002 False [] = Inl VAssertFailed
   \<and> disInstr_RISCV64 False \<lparr>tyenv = [], stmts = []\<rparr> [0 \<mapsto> 0x05, 1 \<mapsto> 0x65] 0
         0x1002 VexArchRISCV64 False [] = Inl VAssertFailed
   \<and> unat (0x1000 :: Addr) mod 4 = 0
   \<and> disInstr_RISCV64_WRK False DisResult_bzero \<lparr>tyenv = [], stmts = []\<rparr> [0 \<mapsto> 0x05, 1 \<mapsto> 0x65]
         0x1000 False [] \<noteq> Inl VAssertFailed
   \<and> (\<exists>r. disInstr_RISCV64_WRK False DisResult_bzero \<lparr>tyenv = [], stmts = []\<rparr>
              [0 \<mapsto> 0x05, 1 \<mapsto> 0x65] 0x1000 False [] = Inr r)"
proof -
  let ?p = "[0 \<mapsto> 0x05, 1 \<mapsto> 0x65] :: byte_window"
  let ?gc = "[0 \<mapsto> 0x05, 1 \<mapsto> 0x65] :: int \<Rightarrow> UChar option"
  let ?i = "\<lparr>tyenv = [], stmts = []\<rparr>"
  have g: "getInsn ?p = Inr 0x6505"
    by (simp add: getInsn_def read_byte_def)
  have g': "getInsn (window_at ?gc 0) = Inr 0x6505"
    by (simp add: getInsn_def read_byte_def window_at_def)
  have m: "unat (0x1002 :: Addr) mod 4 = 2" "unat (0x1000 :: Addr) mod 4 = 0"
    by simp_all
  note bad = pc_alignment_is_asserted [of ?p "0x6505" "0x1002" False DisResult_bzero ?i False "[]" ?gc 0 "0x6505"]
  note good = pc_alignment_is_asserted [of ?p "0x6505" "0x1000" False DisResult_bzero ?i False "[]" ?gc 0 "0x6505"]
  from bad g g' m have "disInstr_RISCV64_WRK False DisResult_bzero ?i ?p 0x1002 False [] = Inl VAssertFailed"
    "disInstr_RISCV64 False ?i ?gc 0 0x1002 VexArchRISCV64 False [] = Inl VAssertFailed"
    by simp_all
  moreover from good m have "disInstr_RISCV64_WRK False DisResult_bzero ?i ?p 0x1000 False [] \<noteq> Inl VAssertFailed"
    by blast
  moreover from good g m have "\<exists>r. disInstr_RISCV64_WRK False DisResult_bzero ?i ?p 0x1000 False [] = Inr r"
    by blast
  ultimately show ?thesis
    using g m by simp
qed

subsection \<open>Claims about the top-level function\<close>

text \<open>
  Claim C2. After a decode that reported success, the top-level function asserts
  that \<^verbatim>\<open>len\<close> is 4 or 20. Then, for \<^verbatim>\<open>Dis_Continue\<close>, it appends exactly one
  write of \<open>guest_IP + len\<close> to the program counter; for \<^verbatim>\<open>Dis_StopHere\<close> it
  leaves the block as the decoder returned it. The result record is returned
  unchanged in both cases.
\<close>

theorem driver_success_path:
  "(len dres \<noteq> 4 \<and> len dres \<noteq> 20 \<longrightarrow>
      disInstr_RISCV64_finish trace_fe True dres irsb p guest_IP sigill_diag out = Inl VAssertFailed)
   \<and> ((len dres = 4 \<or> len dres = 20) \<and> whatNext dres = Dis_Continue \<longrightarrow>
      (\<exists>out'. disInstr_RISCV64_finish trace_fe True dres irsb p guest_IP sigill_diag out =
         Inr (dres,
              irsb\<lparr>stmts := stmts irsb @
                [IRStmt_Put OFFB_PC (IRExpr_Const (IRConst_U64 (guest_IP + ucast (len dres))))]\<rparr>,
              out')))
   \<and> ((len dres = 4 \<or> len dres = 20) \<and> whatNext dres = Dis_StopHere \<longrightarrow>
      (\<exists>out'. disInstr_RISCV64_finish trace_fe True dres irsb p guest_IP sigill_diag out =
         Inr (dres, irsb, out')))
   \<and> (disInstr_RISCV64_WRK trace_fe DisResult_bzero irsb0 (window_at guest_code delta) guest_IP
         sigill_diag out0 = Inr (True, dres, irsb, out) \<longrightarrow>
      disInstr_RISCV64 trace_fe irsb0 guest_code delta guest_IP VexArchRISCV64 sigill_diag out0 =
        disInstr_RISCV64_finish trace_fe True dres irsb (window_at guest_code delta) guest_IP
          sigill_diag out)"
proof -
  let ?fin = "disInstr_RISCV64_finish trace_fe True dres irsb p guest_IP sigill_diag out"
  have "?fin = Inl VAssertFailed" if "len dres \<noteq> 4 \<and> len dres \<noteq> 20"
    using that by (simp add: finish_bad_length)
  moreover have "\<exists>out'. ?fin =
         Inr (dres,
              irsb\<lparr>stmts := stmts irsb @
                [IRStmt_Put OFFB_PC (IRExpr_Const (IRConst_U64 (guest_IP + ucast (len dres))))]\<rparr>,
              out')"
    if "(len dres = 4 \<or> len dres = 20) \<and> whatNext dres = Dis_Continue"
    using that finish_success(1) [of dres trace_fe irsb p guest_IP sigill_diag out] by blast
  moreover have "\<exists>out'. ?fin = Inr (dres, irsb, out')"
    if "(len dres = 4 \<or> len dres = 20) \<and> whatNext dres = Dis_StopHere"
    using that finish_success(2) [of dres trace_fe irsb p guest_IP sigill_diag out] by blast
  moreover have "disInstr_RISCV64 trace_fe irsb0 guest_code delta guest_IP VexArchRISCV64 sigill_diag out0 =
        disInstr_RISCV64_finish trace_fe True dres irsb (window_at guest_code delta) guest_IP
          sigill_diag out"
    if "disInstr_RISCV64_WRK trace_fe DisResult_bzero irsb0 (window_at guest_code delta) guest_IP
         sigill_diag out0 = Inr (True, dres, irsb, out)"
    using that by (simp add: disInstr_RISCV64_def)
  ultimately show ?thesis
    by blast
qed

theorem driver_success_path_witness:
  "disInstr_RISCV64_finish False True
       \<lparr>len = 2, whatNext = Dis_Continue, hint = Dis_HintNone, jk_StopHere = Ijk_INVALID\<rparr>
       \<lparr>tyenv = [], stmts = []\<rparr> [0 \<mapsto> 0x05, 1 \<mapsto> 0x65] 0x1000 False [] = Inl VAssertFailed
   \<and> disInstr_RISCV64_finish False True
       \<lparr>len = 20, whatNext = Dis_Continue, hint = Dis_HintNone, jk_StopHere = Ijk_INVALID\<rparr>
       \<lparr>tyenv = [], stmts = []\<rparr> [0 \<mapsto> 0x05, 1 \<mapsto> 0x65] 0x1000 False []
     = Inr (\<lparr>len = 20, whatNext = Dis_Continue, hint = Dis_HintNone, jk_StopHere = Ijk_INVALID\<rparr>,
            \<lparr>tyenv = [], stmts = [IRStmt_Put OFFB_PC (IRExpr_Const (IRConst_U64 0x1014))]\<rparr>, [])
   \<and> disInstr_RISCV64_finish False True
       \<lparr>len = 4, whatNext = Dis_StopHere, hint = Dis_HintNone, jk_StopHere = Ijk_raw 1\<rparr>
       \<lparr>tyenv = [], stmts = []\<rparr> [0 \<mapsto> 0x05, 1 \<mapsto> 0x65] 0x1000 False []
     = Inr (\<lparr>len = 4, whatNext = Dis_StopHere, hint = Dis_HintNone, jk_StopHere = Ijk_raw 1\<rparr>,
            \<lparr>tyenv = [], stmts = []\<rparr>, [])
   \<and> disInstr_RISCV64 False \<lparr>tyenv = [], stmts = []\<rparr> [0 \<mapsto> 0x05, 1 \<mapsto> 0x65] 0 0x1000
       VexArchRISCV64 False []
     = Inr (\<lparr>len = 4, whatNext = Dis_Continue, hint = Dis_HintNone, jk_StopHere = Ijk_INVALID\<rparr>,
            \<lparr>tyenv = [], stmts = [IRStmt_Put OFFB_X10 (IRExpr_Const (IRConst_U64 0x1000)),
                                   IRStmt_Put OFFB_PC (IRExpr_Const (IRConst_U64 0x1004))]\<rparr>, [])"
proof -
  let ?p = "[0 \<mapsto> 0x05, 1 \<mapsto> 0x65] :: byte_window"
  let ?gc = "[0 \<mapsto> 0x05, 1 \<mapsto> 0x65] :: int \<Rightarrow> UChar option"
  let ?i = "\<lparr>tyenv = [], stmts = []\<rparr>"
  let ?d2 = "\<lparr>len = 2, whatNext = Dis_Continue, hint = Dis_HintNone, jk_StopHere = Ijk_INVALID\<rparr>"
  let ?d20 = "\<lparr>len = 20, whatNext = Dis_Continue, hint = Dis_HintNone, jk_StopHere = Ijk_INVALID\<rparr>"
  let ?ds = "\<lparr>len = 4, whatNext = Dis_StopHere, hint = Dis_HintNone, jk_StopHere = Ijk_raw 1\<rparr>"
  let ?d4 = "\<lparr>len = 4, whatNext = Dis_Continue, hint = Dis_HintNone, jk_StopHere = Ijk_INVALID\<rparr>"
  let ?i1 = "\<lparr>tyenv = [], stmts = [IRStmt_Put OFFB_X10 (IRExpr_Const (IRConst_U64 0x1000))]\<rparr>"
  have w: "window_at ?gc 0 = ?p"
    by (rule ext) (simp add: window_at_def)
  have a: "disInstr_RISCV64_finish False True ?d2 ?i ?p 0x1000 False [] = Inl VAssertFailed"
    using driver_success_path [where dres = ?d2] by simp
  have "\<exists>out'. disInstr_RISCV64_finish False True ?d20 ?i ?p 0x1000 False [] =
         Inr (?d20, \<lparr>tyenv = [], stmts = [IRStmt_Put OFFB_PC (IRExpr_Const (IRConst_U64 0x1014))]\<rparr>, out')"
    using driver_success_path [where dres = ?d20 and irsb = ?i and guest_IP = "0x1000"
        and trace_fe = False and p = ?p and sigill_diag = False and out = "[]"]
    by simp
  then have b: "disInstr_RISCV64_finish False True ?d20 ?i ?p 0x1000 False [] =
         Inr (?d20, \<lparr>tyenv = [], stmts = [IRStmt_Put OFFB_PC (IRExpr_Const (IRConst_U64 0x1014))]\<rparr>, [])"
    by (auto simp add: disInstr_RISCV64_finish_def DIP_def)
  have "\<exists>out'. disInstr_RISCV64_finish False True ?ds ?i ?p 0x1000 False [] = Inr (?ds, ?i, out')"
    using driver_success_path [where dres = ?ds and irsb = ?i and guest_IP = "0x1000"
        and trace_fe = False and p = ?p and sigill_diag = False and out = "[]"]
    by simp
  then have c: "disInstr_RISCV64_finish False True ?ds ?i ?p 0x1000 False [] = Inr (?ds, ?i, [])"
    by (auto simp add: disInstr_RISCV64_finish_def DIP_def)
  have "disInstr_RISCV64 False ?i ?gc 0 0x1000 VexArchRISCV64 False [] =
          disInstr_RISCV64_finish False True ?d4 ?i1 ?p 0x1000 False []"
    using driver_success_path [where dres = ?d4 and irsb = ?i1 and guest_IP = "0x1000"
        and trace_fe = False and sigill_diag = False and out = "[]" and irsb0 = ?i
        and guest_code = ?gc and delta = 0 and out0 = "[]"] WRK_run_c_lui
    by (simp add: w)
  then have d: "disInstr_RISCV64 False ?i ?gc 0 0x1000 VexArchRISCV64 False [] =
      Inr (?d4, \<lparr>tyenv = [], stmts = [IRStmt_Put OFFB_X10 (IRExpr_Const (IRConst_U64 0x1000)),
                                   IRStmt_Put OFFB_PC (IRExpr_Const (IRConst_U64 0x1004))]\<rparr>, [])"
    by (simp add: disInstr_RISCV64_finish_def DIP_def stmt_def addStmtToIRSB_def mkU64_def)
  from a b c d show ?thesis
    by simp
qed

text \<open>
  Claim C3. Whenever the worker reports that the instruction was not decoded, the
  top-level function appends to the block a write of the address of the current
  instruction to the program counter and returns a result record with \<^verbatim>\<open>len\<close>
  0, \<^verbatim>\<open>Dis_StopHere\<close> and \<^verbatim>\<open>Ijk_NoDecode\<close>; the failed decode itself has added
  nothing to the block.
\<close>

theorem driver_reports_no_decode:
  assumes "disInstr_RISCV64_WRK trace_fe DisResult_bzero irsb (window_at guest_code delta) guest_IP
             sigill_diag out = Inr (False, dres', irsb', out')"
  shows "\<exists>dres'' out''.
           disInstr_RISCV64 trace_fe irsb guest_code delta guest_IP VexArchRISCV64 sigill_diag out
             = Inr (dres'',
                    irsb\<lparr>stmts := stmts irsb @
                      [IRStmt_Put OFFB_PC (IRExpr_Const (IRConst_U64 guest_IP))]\<rparr>,
                    out'')
           \<and> dres'' = dres'\<lparr>len := 0, whatNext := Dis_StopHere, jk_StopHere := Ijk_NoDecode\<rparr>
           \<and> len dres'' = 0 \<and> whatNext dres'' = Dis_StopHere \<and> jk_StopHere dres'' = Ijk_NoDecode
           \<and> irsb' = irsb"
proof -
  from WRK_returns_reads [OF assms] obtain insn where g: "getInsn (window_at guest_code delta) = Inr insn"
    by blast
  have "WRK_outcome (disInstr_RISCV64_WRK trace_fe DisResult_bzero irsb (window_at guest_code delta)
          guest_IP sigill_diag out) = Inr (False, dres', irsb')"
    using assms by (simp add: WRK_outcome_def)
  then have same: "irsb' = irsb"
    unfolding WRK_outcome_cases by (simp add: g split: sum.splits if_splits)
  from finish_failure [OF g, of trace_fe dres' irsb' guest_IP sigill_diag out']
  obtain out'' where "disInstr_RISCV64_finish trace_fe False dres' irsb' (window_at guest_code delta)
      guest_IP sigill_diag out' =
        Inr (dres'\<lparr>len := 0, whatNext := Dis_StopHere, jk_StopHere := Ijk_NoDecode\<rparr>,
             irsb'\<lparr>stmts := stmts irsb' @ [IRStmt_Put OFFB_PC (IRExpr_Const (IRConst_U64 guest_IP))]\<rparr>,
             out'')"
    by blast
  then have "disInstr_RISCV64 trace_fe irsb guest_code delta guest_IP VexArchRISCV64 sigill_diag out
             = Inr (dres'\<lparr>len := 0, whatNext := Dis_StopHere, jk_StopHere := Ijk_NoDecode\<rparr>,
                    irsb\<lparr>stmts := stmts irsb @
                      [IRStmt_Put OFFB_PC (IRExpr_Const (IRConst_U64 guest_IP))]\<rparr>,
                    out'')"
    using assms same by (simp add: disInstr_RISCV64_def)
  with same show ?thesis
    by simp
qed

theorem driver_reports_no_decode_witness:
  "disInstr_RISCV64_WRK False DisResult_bzero \<lparr>tyenv = [], stmts = []\<rparr>
       (window_at [0 \<mapsto> 0x05, 1 \<mapsto> 0x60] 0) 0x1000 False []
     = Inr (False, \<lparr>len = 4, whatNext = Dis_Continue, hint = Dis_HintNone, jk_StopHere = Ijk_INVALID\<rparr>,
            \<lparr>tyenv = [], stmts = []\<rparr>, [])
   \<and> disInstr_RISCV64 False \<lparr>tyenv = [], stmts = []\<rparr> [0 \<mapsto> 0x05, 1 \<mapsto> 0x60] 0 0x1000
       VexArchRISCV64 False []
     = Inr (\<lparr>len = 0, whatNext = Dis_StopHere, hint = Dis_HintNone, jk_StopHere = Ijk_NoDecode\<rparr>,
            \<lparr>tyenv = [], stmts = [IRStmt_Put OFFB_PC (IRExpr_Const (IRConst_U64 0x1000))]\<rparr>, [])"
proof -
  let ?p = "[0 \<mapsto> 0x05, 1 \<mapsto> 0x60] :: byte_window"
  let ?gc = "[0 \<mapsto> 0x05, 1 \<mapsto> 0x60] :: int \<Rightarrow> UChar option"
  let ?i = "\<lparr>tyenv = [], stmts = []\<rparr>"
  let ?d4 = "\<lparr>len = 4, whatNext = Dis_Continue, hint = Dis_HintNone, jk_StopHere = Ijk_INVALID\<rparr>"
  have w: "window_at ?gc 0 = ?p"
    by (rule ext) (simp add: window_at_def)
  have h: "disInstr_RISCV64_WRK False DisResult_bzero ?i (window_at ?gc 0) 0x1000 False []
             = Inr (False, ?d4, ?i, [])"
    unfolding w by (rule WRK_run_rd0)
  from driver_reports_no_decode [OF h] obtain out'' where
    r: "disInstr_RISCV64 False ?i ?gc 0 0x1000 VexArchRISCV64 False []
          = Inr (\<lparr>len = 0, whatNext = Dis_StopHere, hint = Dis_HintNone, jk_StopHere = Ijk_NoDecode\<rparr>,
                 \<lparr>tyenv = [], stmts = [IRStmt_Put OFFB_PC (IRExpr_Const (IRConst_U64 0x1000))]\<rparr>, out'')"
    by auto
  then have "out'' = []"
    by (simp add: disInstr_RISCV64_def h disInstr_RISCV64_finish_def)
  with r h show ?thesis
    by simp
qed

end
